theory Spec2Isabelle
  imports Main "HOL-Library.Word"
begin

section \<open>Go library functions called by the package\<close>

text \<open>
  A Go \<open>string\<close> is a sequence of bytes, as an Isabelle \<open>string\<close> is a list of 8-bit
  characters. The functions of this section are the ones of the Go standard library that
  \<open>tlsextensions.go\<close> calls (\<open>strings.ToLower\<close>, \<open>strings.Contains\<close>, \<open>strings.Split\<close>,
  \<open>strconv.ParseUint\<close>), written after their documented behaviour.
\<close>

subsection \<open>Package strings\<close>

definition is_upper_ascii :: "char \<Rightarrow> bool" where
  "is_upper_ascii c = (65 \<le> (of_char c :: nat) \<and> (of_char c :: nat) \<le> 90)"

definition lower_byte :: "char \<Rightarrow> char" where
  "lower_byte c = (if is_upper_ascii c then char_of ((of_char c :: nat) + 32) else c)"

text \<open>
  \<open>strings.ToLower\<close>: on a string of ASCII bytes only, every byte \<open>A\<close>..\<open>Z\<close> is moved
  to \<open>a\<close>..\<open>z\<close>. On any other string Go maps \<open>unicode.ToLower\<close> over the decoded runes;
  the Unicode case tables are not part of the package, so that branch is the parameter
  \<open>unicodeLower\<close>.
\<close>

definition ToLower :: "(string \<Rightarrow> string) \<Rightarrow> string \<Rightarrow> string" where
  "ToLower unicodeLower s =
     (if list_all (\<lambda>c. (of_char c :: nat) < 128) s then map lower_byte s else unicodeLower s)"

fun HasPrefix :: "string \<Rightarrow> string \<Rightarrow> bool" where
  "HasPrefix s [] = True"
| "HasPrefix [] (p # ps) = False"
| "HasPrefix (c # cs) (p # ps) = (c = p \<and> HasPrefix cs ps)"

text \<open>\<open>strings.Contains s substr\<close>: some suffix of \<open>s\<close> starts with \<open>substr\<close>.\<close>

fun Contains :: "string \<Rightarrow> string \<Rightarrow> bool" where
  "Contains [] substr = (substr = [])"
| "Contains (c # cs) substr = (HasPrefix (c # cs) substr \<or> Contains cs substr)"

text \<open>
  \<open>strings.Split s sep\<close> for a separator of one byte, which is what both call sites pass
  (\<open>","\<close> and \<open>"-"\<close>): the pieces between the separators, in order; the empty string gives
  one empty piece.
\<close>

fun Split :: "string \<Rightarrow> char \<Rightarrow> string list" where
  "Split [] sep = ['''']"
| "Split (c # cs) sep =
     (if c = sep then [] # Split cs sep
      else (case Split cs sep of [] \<Rightarrow> [c # ''''] | t # ts \<Rightarrow> (c # t) # ts))"

subsection \<open>Package strconv\<close>

datatype numErrKind = ErrSyntax | ErrRange

text \<open>
  The Go \<open>error\<close> values this package can return: a \<open>*strconv.NumError\<close> with its fields
  \<open>Func\<close>, \<open>Num\<close> and \<open>Err\<close>, and the package's own \<open>*errExtensionNotExist\<close> with its
  field \<open>Context\<close>.
\<close>

datatype error = NumError string string numErrKind | ErrExtensionNotExist string

text \<open>
  \<open>strconv.ParseUint s 10 bitSize\<close>; the base is 10 at every call site. The accumulator is
  a \<open>uint64\<close>: the wrap-around of \<open>n * 10\<close> and \<open>n + d\<close> is written out. A byte that is not
  a decimal digit is a syntax error (a letter has digit value at least 10, the base); a
  value above \<open>2 ^ bitSize - 1\<close> is a range error, found at the first digit that exceeds it.
\<close>

definition cutoff :: nat where
  "cutoff = (2 ^ 64 - 1) div 10 + 1"

fun ParseUint_loop :: "string \<Rightarrow> nat \<Rightarrow> string \<Rightarrow> nat \<Rightarrow> error + nat" where
  "ParseUint_loop s0 maxVal [] n = Inr n"
| "ParseUint_loop s0 maxVal (c # cs) n =
     (if 48 \<le> (of_char c :: nat) \<and> (of_char c :: nat) \<le> 57 then
        (let d = (of_char c :: nat) - 48 in
         if n \<ge> cutoff then Inl (NumError ''ParseUint'' s0 ErrRange)
         else
           (let n10 = (n * 10) mod 2 ^ 64; n1 = (n10 + d) mod 2 ^ 64 in
            if n1 < n10 \<or> n1 > maxVal then Inl (NumError ''ParseUint'' s0 ErrRange)
            else ParseUint_loop s0 maxVal cs n1))
      else Inl (NumError ''ParseUint'' s0 ErrSyntax))"

definition ParseUint :: "string \<Rightarrow> nat \<Rightarrow> error + nat" where
  "ParseUint s bitSize =
     (if s = '''' then Inl (NumError ''ParseUint'' s ErrSyntax)
      else ParseUint_loop s (2 ^ bitSize - 1) s 0)"

text \<open>
  What the specification asks of a numeric token, in its own words: an unsigned decimal
  integer that fits the field's bit width.
\<close>

definition is_digit :: "char \<Rightarrow> bool" where
  "is_digit c = (48 \<le> (of_char c :: nat) \<and> (of_char c :: nat) \<le> 57)"

definition dec_step :: "nat \<Rightarrow> char \<Rightarrow> nat" where
  "dec_step n c = n * 10 + ((of_char c :: nat) - 48)"

definition dec_value :: "string \<Rightarrow> nat" where
  "dec_value s = foldl dec_step 0 s"

definition is_uint :: "nat \<Rightarrow> string \<Rightarrow> bool" where
  "is_uint bitSize s = (s \<noteq> [] \<and> list_all is_digit s \<and> dec_value s < 2 ^ bitSize)"

section \<open>Outcomes of a call\<close>

text \<open>
  A Go call either returns or panics. \<open>StringToSpec\<close> returns the pair
  \<open>(*utls.ClientHelloSpec, error)\<close>; a nil pointer and a nil error are \<open>None\<close>.
\<close>

datatype panic = IndexOutOfRange | NilPointerDereference

datatype 'a outcome = Returns 'a | Panics panic

definition bind_outcome :: "'a outcome \<Rightarrow> ('a \<Rightarrow> 'b outcome) \<Rightarrow> 'b outcome" where
  "bind_outcome m f = (case m of Returns v \<Rightarrow> f v | Panics p \<Rightarrow> Panics p)"

text \<open>Indexing a slice with a Go \<open>int\<close>: out of range panics.\<close>

definition index_at :: "'a list \<Rightarrow> int \<Rightarrow> 'a outcome" where
  "index_at xs i =
     (if 0 \<le> i \<and> i < int (length xs) then Returns (xs ! nat i) else Panics IndexOutOfRange)"

section \<open>The data model\<close>

type_synonym uint16 = "16 word"
type_synonym uint8 = "8 word"

text \<open>
  Named constants of \<open>utls\<close> and \<open>crypto/tls\<close>, with the values those libraries publish.
  \<open>CurveID\<close>, \<open>SignatureScheme\<close> and \<open>CertCompressionAlgo\<close> are \<open>uint16\<close> there.
\<close>

definition GREASE_PLACEHOLDER :: uint16 where "GREASE_PLACEHOLDER = 0x0a0a"
definition VersionTLS12 :: uint16 where "VersionTLS12 = 0x0303"
definition VersionTLS13 :: uint16 where "VersionTLS13 = 0x0304"
definition X25519 :: uint16 where "X25519 = 29"
definition CurveP256 :: uint16 where "CurveP256 = 23"
definition PKCS1WithSHA256 :: uint16 where "PKCS1WithSHA256 = 0x0401"
definition PKCS1WithSHA384 :: uint16 where "PKCS1WithSHA384 = 0x0501"
definition PKCS1WithSHA512 :: uint16 where "PKCS1WithSHA512 = 0x0601"
definition PSSWithSHA256 :: uint16 where "PSSWithSHA256 = 0x0804"
definition PSSWithSHA384 :: uint16 where "PSSWithSHA384 = 0x0805"
definition PSSWithSHA512 :: uint16 where "PSSWithSHA512 = 0x0806"
definition ECDSAWithP256AndSHA256 :: uint16 where "ECDSAWithP256AndSHA256 = 0x0403"
definition ECDSAWithP384AndSHA384 :: uint16 where "ECDSAWithP384AndSHA384 = 0x0503"
definition ECDSAWithP521AndSHA512 :: uint16 where "ECDSAWithP521AndSHA512 = 0x0603"
definition PKCS1WithSHA1 :: uint16 where "PKCS1WithSHA1 = 0x0201"
definition ECDSAWithSHA1 :: uint16 where "ECDSAWithSHA1 = 0x0203"
definition CertCompressionBrotli :: uint16 where "CertCompressionBrotli = 0x0002"
definition PskModeDHE :: uint8 where "PskModeDHE = 1"

datatype RenegotiationSupport = RenegotiateNever | RenegotiateOnceAsClient | RenegotiateFreelyAsClient

text \<open>The two library functions the package stores by reference.\<close>

datatype paddingLenFunc = BoringPaddingStyle
datatype sessionIDFunc = sha256_Sum256

datatype KeyShare = KeyShare (Group: uint16) (Data: "uint8 list")

text \<open>
  \<open>utls.TLSExtension\<close> is an interface; the values the package stores in it are pointers
  to the extension structs below. Each constructor carries the fields that the package
  sets; every other field of the struct keeps Go's zero value. A nil slice and an empty
  slice are both the empty list.
\<close>

datatype TLSExtension =
    SNIExtension
  | StatusRequestExtension
  | SupportedCurvesExtension "uint16 list"
  | SupportedPointsExtension "uint8 list"
  | SignatureAlgorithmsExtension "uint16 list"
  | ALPNExtension "string list"
  | GenericExtension uint16 "uint8 list"
  | SCTExtension
  | UtlsPaddingExtension paddingLenFunc
  | ExtendedMasterSecretExtension
  | FakeTokenBindingExtension
  | UtlsCompressCertExtension "uint16 list"
  | FakeRecordSizeLimitExtension uint16
  | DelegatedCredentialsExtension "uint16 list"
  | SessionTicketExtension
  | UtlsPreSharedKeyExtension
  | SupportedVersionsExtension "uint16 list"
  | CookieExtension
  | PSKKeyExchangeModesExtension "uint8 list"
  | SignatureAlgorithmsCertExtension "uint16 list"
  | KeyShareExtension "KeyShare list"
  | QUICTransportParametersExtension
  | NPNExtension
  | ApplicationSettingsExtension "string list"
  | RenegotiationInfoExtension RenegotiationSupport
  | GREASEEncryptedClientHelloExtension
  | UtlsGREASEExtension

text \<open>
  The override struct. Each of its eight pointer fields points to one extension struct, so
  the field holds that struct's payload, and \<open>None\<close> is the nil pointer.
\<close>

record TLSExtensions =
  SupportedSignatureAlgorithms :: "uint16 list option"
  CertCompressionAlgo :: "uint16 list option"
  RecordSizeLimit :: "uint16 option"
  DelegatedCredentials :: "uint16 list option"
  SupportedVersions :: "uint16 list option"
  PSKKeyExchangeModes :: "uint8 list option"
  SignatureAlgorithmsCert :: "uint16 list option"
  KeyShareCurves :: "KeyShare list option"
  NotUsedGREASE :: bool
  ClientHelloHexStream :: string

text \<open>\<open>TLSExtensions{}\<close>, the zero value.\<close>

definition zero_TLSExtensions :: TLSExtensions where
  "zero_TLSExtensions =
     \<lparr>SupportedSignatureAlgorithms = None, CertCompressionAlgo = None, RecordSizeLimit = None,
      DelegatedCredentials = None, SupportedVersions = None, PSKKeyExchangeModes = None,
      SignatureAlgorithmsCert = None, KeyShareCurves = None, NotUsedGREASE = False,
      ClientHelloHexStream = ''''\<rparr>"

text \<open>
  The fields of \<open>utls.ClientHelloSpec\<close> that \<open>StringToSpec\<close> sets (\<open>TLSVersMin\<close> and
  \<open>TLSVersMax\<close> are commented out in the source).
\<close>

record ClientHelloSpec =
  CipherSuites :: "uint16 list"
  CompressionMethods :: "uint8 list"
  Extensions :: "TLSExtension list"
  GetSessionID :: sessionIDFunc

type_synonym catalog = "string \<rightharpoonup> TLSExtension"

section \<open>The extension catalog\<close>

definition genMap :: catalog where
  "genMap = map_of
     [(''0'', SNIExtension),
      (''5'', StatusRequestExtension),
      (''13'', SignatureAlgorithmsExtension
         [ECDSAWithP256AndSHA256, ECDSAWithP384AndSHA384, ECDSAWithP521AndSHA512,
          PSSWithSHA256, PSSWithSHA384, PSSWithSHA512,
          PKCS1WithSHA256, PKCS1WithSHA384, PKCS1WithSHA512,
          ECDSAWithSHA1, PKCS1WithSHA1]),
      (''16'', ALPNExtension [''h2'', ''http/1.1'']),
      (''17'', GenericExtension 17 []),
      (''18'', SCTExtension),
      (''21'', UtlsPaddingExtension BoringPaddingStyle),
      (''22'', GenericExtension 22 []),
      (''23'', ExtendedMasterSecretExtension),
      (''24'', FakeTokenBindingExtension),
      (''27'', UtlsCompressCertExtension [CertCompressionBrotli]),
      (''28'', FakeRecordSizeLimitExtension 0x4001),
      (''34'', DelegatedCredentialsExtension
         [ECDSAWithP256AndSHA256, ECDSAWithP384AndSHA384, ECDSAWithP521AndSHA512,
          ECDSAWithSHA1]),
      (''35'', SessionTicketExtension),
      (''41'', UtlsPreSharedKeyExtension),
      (''43'', SupportedVersionsExtension [VersionTLS13, VersionTLS12]),
      (''44'', CookieExtension),
      (''45'', PSKKeyExchangeModesExtension [PskModeDHE]),
      (''49'', GenericExtension 49 []),
      (''50'', SignatureAlgorithmsCertExtension
         [ECDSAWithP256AndSHA256, ECDSAWithP384AndSHA384, ECDSAWithP521AndSHA512,
          PSSWithSHA256, PSSWithSHA384, PSSWithSHA512,
          PKCS1WithSHA256, PKCS1WithSHA384, PKCS1WithSHA512,
          ECDSAWithSHA1, PKCS1WithSHA1]),
      (''51'', KeyShareExtension [KeyShare X25519 []]),
      (''57'', QUICTransportParametersExtension),
      (''13172'', NPNExtension),
      (''17513'', ApplicationSettingsExtension [''h2'']),
      (''17613'', ApplicationSettingsExtension [''h2'']),
      (''30032'', GenericExtension 0x7550 [0]),
      (''65281'', RenegotiationInfoExtension RenegotiateOnceAsClient),
      (''65037'', GREASEEncryptedClientHelloExtension)]"

section \<open>The identity classifier\<close>

definition chrome :: string where
  "chrome = ''chrome''"

definition firefox :: string where
  "firefox = ''firefox''"

definition parseUserAgent :: "(string \<Rightarrow> string) \<Rightarrow> string \<Rightarrow> string" where
  "parseUserAgent unicodeLower userAgent =
     (if Contains (ToLower unicodeLower userAgent) ''chrome'' then chrome
      else if Contains (ToLower unicodeLower userAgent) ''applewebkit'' then chrome
      else if Contains (ToLower unicodeLower userAgent) ''firefox'' then firefox
      else chrome)"

section \<open>The plan compiler\<close>

definition raiseExtensionError :: "string \<Rightarrow> error" where
  "raiseExtensionError info = ErrExtensionNotExist info"

text \<open>The method \<open>Error\<close> of \<open>*errExtensionNotExist\<close>; a \<open>*strconv.NumError\<close> prints
  through the library and is not modelled beyond its fields.\<close>

definition Error_errExtensionNotExist :: "string \<Rightarrow> string" where
  "Error_errExtensionNotExist context =
     ''Extension {{ '' @ context @ '' }} is not Supported by requests please raise an issue''"

text \<open>
  Lines 65 to 77: the five fields of the fingerprint. \<open>tokens[i]\<close> panics when the
  fingerprint has too few fields. \<open>dropBlank\<close> is the test of lines 71 and 75,
  \<open>len(xs) == 1 && xs[0] == ""\<close>, which the source applies to the curve list and to the
  point-format list only.
\<close>

definition dropBlank :: "string list \<Rightarrow> string list" where
  "dropBlank xs = (if length xs = 1 \<and> xs ! 0 = '''' then [] else xs)"

definition ja3_fields ::
  "string \<Rightarrow> (string \<times> string list \<times> string list \<times> string list \<times> string list) outcome" where
  "ja3_fields ja3 =
     (let tokens = Split ja3 CHR '','' in
      bind_outcome (index_at tokens 0) (\<lambda>version.
      bind_outcome (index_at tokens 1) (\<lambda>t1.
        let ciphers = Split t1 CHR ''-'' in
      bind_outcome (index_at tokens 2) (\<lambda>t2.
        let extensions = Split t2 CHR ''-'' in
      bind_outcome (index_at tokens 3) (\<lambda>t3.
        let curves = dropBlank (Split t3 CHR ''-'') in
      bind_outcome (index_at tokens 4) (\<lambda>t4.
        let pointFormats = dropBlank (Split t4 CHR ''-'') in
        Returns (version, ciphers, extensions, curves, pointFormats)))))))"

text \<open>
  The three range statements of the shape \<open>for _, c := range toks { v, err := strconv.ParseUint(c, 10,
  bitSize); if err != nil { return nil, err }; target = append(target, T(v)) }\<close>: over the
  curves (16 bits, line 99), the point formats (8 bits, line 110) and the ciphers (16
  bits, line 182). The conversion \<open>T(v)\<close> to the element type is \<open>of_nat\<close>.
\<close>

fun parseTokens :: "nat \<Rightarrow> string list \<Rightarrow> 'a::len word list \<Rightarrow> error + 'a word list" where
  "parseTokens bitSize [] target = Inr target"
| "parseTokens bitSize (c # cs) target =
     (case ParseUint c bitSize of
        Inl err \<Rightarrow> Inl err
      | Inr v \<Rightarrow> parseTokens bitSize cs (target @ [of_nat v]))"

text \<open>
  Lines 82 to 91. The catalog is fresh from \<open>genMap\<close>, so updating the struct an entry
  points to is updating the entry. The inner test is the type assertion.
\<close>

definition prependGREASE :: "catalog \<Rightarrow> catalog" where
  "prependGREASE extMap =
     (let extMap1 =
            (case extMap ''43'' of
               Some (SupportedVersionsExtension versions) \<Rightarrow>
                 extMap(''43'' \<mapsto> SupportedVersionsExtension (GREASE_PLACEHOLDER # versions))
             | _ \<Rightarrow> extMap)
      in (case extMap1 ''51'' of
            Some (KeyShareExtension keyShares) \<Rightarrow>
              extMap1(''51'' \<mapsto> KeyShareExtension (KeyShare GREASE_PLACEHOLDER [0] # keyShares))
          | _ \<Rightarrow> extMap1))"

text \<open>Lines 93 to 97.\<close>

definition appendP256 :: "catalog \<Rightarrow> catalog" where
  "appendP256 extMap =
     (case extMap ''51'' of
        Some (KeyShareExtension keyShares) \<Rightarrow>
          extMap(''51'' \<mapsto> KeyShareExtension (keyShares @ [KeyShare CurveP256 []]))
      | _ \<Rightarrow> extMap)"

text \<open>
  Lines 79 to 106, curve resolution. \<open>grease\<close> is the value of the test
  \<open>parsedUserAgent == chrome && !tlsExtensions.NotUsedGREASE\<close>.
\<close>

definition resolveCurves :: "bool \<Rightarrow> catalog \<Rightarrow> string list \<Rightarrow> error + catalog" where
  "resolveCurves grease extMap curves =
     (let targetCurves0 = (if grease then [GREASE_PLACEHOLDER] else []);
          extMap1 = (if grease then prependGREASE extMap else appendP256 extMap)
      in case parseTokens 16 curves targetCurves0 of
           Inl err \<Rightarrow> Inl err
         | Inr targetCurves \<Rightarrow> Inr (extMap1(''10'' \<mapsto> SupportedCurvesExtension targetCurves)))"

text \<open>
  Lines 121 to 144, the override merge: eight statements of the shape
  \<open>if ext.F != nil { extMap[k] = ext.F }\<close>, in the order of the source.
\<close>

definition override ::
  "'a option \<Rightarrow> string \<Rightarrow> ('a \<Rightarrow> TLSExtension) \<Rightarrow> catalog \<Rightarrow> catalog" where
  "override field k mk extMap = (case field of None \<Rightarrow> extMap | Some x \<Rightarrow> extMap(k \<mapsto> mk x))"

definition applyOverrides :: "TLSExtensions \<Rightarrow> catalog \<Rightarrow> catalog" where
  "applyOverrides ext extMap =
     (let m13 = override (SupportedSignatureAlgorithms ext) ''13'' SignatureAlgorithmsExtension extMap;
          m27 = override (CertCompressionAlgo ext) ''27'' UtlsCompressCertExtension m13;
          m28 = override (RecordSizeLimit ext) ''28'' FakeRecordSizeLimitExtension m27;
          m34 = override (DelegatedCredentials ext) ''34'' DelegatedCredentialsExtension m28;
          m43 = override (SupportedVersions ext) ''43'' SupportedVersionsExtension m34;
          m45 = override (PSKKeyExchangeModes ext) ''45'' PSKKeyExchangeModesExtension m43;
          m50 = override (SignatureAlgorithmsCert ext) ''50'' SignatureAlgorithmsCertExtension m45
      in override (KeyShareCurves ext) ''51'' KeyShareExtension m50)"

text \<open>
  Lines 160 to 170, the loop over the extension IDs; \<open>n\<close> is \<open>len(extensions)\<close> and \<open>i\<close>
  the index of the head of the remaining list.
\<close>

fun buildExts ::
  "catalog \<Rightarrow> bool \<Rightarrow> nat \<Rightarrow> nat \<Rightarrow> string list \<Rightarrow> TLSExtension list \<Rightarrow> error + TLSExtension list" where
  "buildExts extMap grease n i [] exts = Inr exts"
| "buildExts extMap grease n i (e # es) exts =
     (case extMap e of
        None \<Rightarrow> Inl (raiseExtensionError e)
      | Some te \<Rightarrow>
          (let exts1 = (if int i = int n - 1 \<and> (e = ''41'' \<or> e = ''21'') \<and> grease
                        then exts @ [UtlsGREASEExtension] else exts)
           in buildExts extMap grease n (Suc i) es (exts1 @ [te])))"

text \<open>
  The test \<open>parsedUserAgent == chrome && !tlsExtensions.NotUsedGREASE\<close>, with Go's
  short-circuit: the pointer is dereferenced only for a chrome-like identity. The source
  evaluates it at lines 80, 157, 166, 172 and 179, on operands that do not change; the
  model evaluates it at line 80 and names the value \<open>grease\<close>.
\<close>

definition useGREASE :: "string \<Rightarrow> TLSExtensions option \<Rightarrow> bool outcome" where
  "useGREASE parsedUserAgent tlsExtensions =
     (if parsedUserAgent = chrome then
        (case tlsExtensions of
           None \<Rightarrow> Panics NilPointerDereference
         | Some ext \<Rightarrow> Returns (\<not> NotUsedGREASE ext))
      else Returns False)"

text \<open>The statement \<open>if err != nil { return nil, err }\<close> after a fallible step.\<close>

definition orReturnErr ::
  "error + 'a \<Rightarrow> ('a \<Rightarrow> (ClientHelloSpec option \<times> error option) outcome)
     \<Rightarrow> (ClientHelloSpec option \<times> error option) outcome" where
  "orReturnErr r f = (case r of Inl err \<Rightarrow> Returns (None, Some err) | Inr v \<Rightarrow> f v)"

text \<open>
  Line 172: the test \<open>parsedUserAgent == chrome && (extensions[len(extensions)-1] != "21"
  && extensions[len(extensions)-1] != "41") && !tlsExtensions.NotUsedGREASE\<close>; the slice
  is indexed only for a chrome-like identity.
\<close>

definition trailingGREASE :: "string \<Rightarrow> bool \<Rightarrow> string list \<Rightarrow> bool outcome" where
  "trailingGREASE parsedUserAgent grease extensions =
     (if parsedUserAgent = chrome then
        bind_outcome (index_at extensions (int (length extensions) - 1)) (\<lambda>l21.
          if l21 \<noteq> ''21'' then
            bind_outcome (index_at extensions (int (length extensions) - 1)) (\<lambda>l41.
              Returns (l41 \<noteq> ''41'' \<and> grease))
          else Returns False)
      else Returns False)"

text \<open>
  Lines 79 to 145: the catalog that the extension IDs are looked up in. Curve resolution,
  then the point formats as extension \<open>"11"\<close>, then the override merge, which line 120
  guards with \<open>tlsExtensions != nil\<close>.
\<close>

definition buildCatalog ::
  "bool \<Rightarrow> TLSExtensions option \<Rightarrow> string list \<Rightarrow> string list \<Rightarrow> error + catalog" where
  "buildCatalog grease tlsExtensions curves pointFormats =
     (case resolveCurves grease genMap curves of
        Inl err \<Rightarrow> Inl err
      | Inr extMap10 \<Rightarrow>
          (case parseTokens 8 pointFormats [] of
             Inl err \<Rightarrow> Inl err
           | Inr targetPointFormats \<Rightarrow>
               (let extMap11 = extMap10(''11'' \<mapsto> SupportedPointsExtension targetPointFormats)
                in Inr (case tlsExtensions of
                          None \<Rightarrow> extMap11
                        | Some ext \<Rightarrow> applyOverrides ext extMap11))))"

text \<open>Lines 79 to 197, on the parsed fields and the receiver as it stands after line 62.\<close>

definition compile ::
  "string \<Rightarrow> TLSExtensions option \<Rightarrow> string \<times> string list \<times> string list \<times> string list \<times> string list
     \<Rightarrow> (ClientHelloSpec option \<times> error option) outcome" where
  "compile parsedUserAgent tlsExtensions parsed =
     (case parsed of (version, ciphers, extensions, curves, pointFormats) \<Rightarrow>
      bind_outcome (useGREASE parsedUserAgent tlsExtensions) (\<lambda>grease.
      orReturnErr (buildCatalog grease tlsExtensions curves pointFormats) (\<lambda>extMap.
      orReturnErr (ParseUint version 16) (\<lambda>vid64.
        let exts0 = (if grease then [UtlsGREASEExtension] else []) in
      orReturnErr (buildExts extMap grease (length extensions) 0 extensions exts0) (\<lambda>exts1.
      bind_outcome (trailingGREASE parsedUserAgent grease extensions) (\<lambda>trailing.
        let exts = (if trailing then exts1 @ [UtlsGREASEExtension] else exts1);
            suites0 = (if grease then [GREASE_PLACEHOLDER] else []) in
      orReturnErr (parseTokens 16 ciphers suites0) (\<lambda>suites.
        Returns (Some \<lparr>CipherSuites = suites, CompressionMethods = [0],
                       Extensions = exts, GetSessionID = sha256_Sum256\<rparr>, None))))))))"

text \<open>
  \<open>StringToSpec\<close>; the receiver is a pointer, \<open>None\<close> when nil. The Unicode branch of
  \<open>strings.ToLower\<close> is the first argument.
\<close>

definition StringToSpec ::
  "(string \<Rightarrow> string) \<Rightarrow> TLSExtensions option \<Rightarrow> string \<Rightarrow> string
     \<Rightarrow> (ClientHelloSpec option \<times> error option) outcome" where
  "StringToSpec unicodeLower tlsExtensions0 ja3 userAgent =
     (let parsedUserAgent = parseUserAgent unicodeLower userAgent;
          tlsExtensions = (if tlsExtensions0 = None then Some zero_TLSExtensions else tlsExtensions0)
      in bind_outcome (ja3_fields ja3) (compile parsedUserAgent tlsExtensions))"

section \<open>Notions used in the statements\<close>

text \<open>The values of a list of tokens, in order, converted to the element type.\<close>

definition tokenValues :: "string list \<Rightarrow> 'a::len word list" where
  "tokenValues ts = map (\<lambda>t. of_nat (dec_value t)) ts"

text \<open>The override struct in force after line 62: the zero value for a nil receiver.\<close>

definition receiver :: "TLSExtensions option \<Rightarrow> TLSExtensions" where
  "receiver p = (case p of None \<Rightarrow> zero_TLSExtensions | Some ext \<Rightarrow> ext)"

text \<open>Chrome-like identity, randomization not suppressed.\<close>

definition greaseOn :: "(string \<Rightarrow> string) \<Rightarrow> TLSExtensions option \<Rightarrow> string \<Rightarrow> bool" where
  "greaseOn unicodeLower p userAgent =
     (parseUserAgent unicodeLower userAgent = chrome \<and> \<not> NotUsedGREASE (receiver p))"

text \<open>The catalog after the override merge, when the curve and point-format tokens parse.\<close>

definition mergedCatalog :: "bool \<Rightarrow> TLSExtensions \<Rightarrow> string list \<Rightarrow> string list \<Rightarrow> catalog" where
  "mergedCatalog grease ext curves pointFormats =
     applyOverrides ext
       ((if grease then prependGREASE genMap else appendP256 genMap)
          (''10'' \<mapsto> SupportedCurvesExtension
                      ((if grease then [GREASE_PLACEHOLDER] else []) @ tokenValues curves),
           ''11'' \<mapsto> SupportedPointsExtension (tokenValues pointFormats)))"

text \<open>
  The definitions of a list of extension IDs, with one marker ahead of the last definition
  when the last ID is \<open>"41"\<close> or \<open>"21"\<close> and markers are on.
\<close>

definition withMarker :: "bool \<Rightarrow> catalog \<Rightarrow> string list \<Rightarrow> TLSExtension list" where
  "withMarker grease extMap es =
     (if es = [] then []
      else map (\<lambda>e. the (extMap e)) (butlast es)
           @ (if (last es = ''41'' \<or> last es = ''21'') \<and> grease then [UtlsGREASEExtension] else [])
           @ [the (extMap (last es))])"

text \<open>The extension sequence of the plan: leading marker, definitions, trailing marker.\<close>

definition planExts :: "bool \<Rightarrow> catalog \<Rightarrow> string list \<Rightarrow> TLSExtension list" where
  "planExts grease extMap extensions =
     (if grease then [UtlsGREASEExtension] else [])
     @ withMarker grease extMap extensions
     @ (if grease \<and> last extensions \<noteq> ''21'' \<and> last extensions \<noteq> ''41''
        then [UtlsGREASEExtension] else [])"

text \<open>Every check of the compiler passes on the parsed fields.\<close>

definition allValid ::
  "bool \<Rightarrow> TLSExtensions \<Rightarrow> string \<Rightarrow> string list \<Rightarrow> string list \<Rightarrow> string list \<Rightarrow> string list
     \<Rightarrow> bool" where
  "allValid grease ext version ciphers extensions curves pointFormats =
     (list_all (is_uint 16) curves \<and> list_all (is_uint 8) pointFormats \<and> is_uint 16 version
      \<and> list_all (\<lambda>e. mergedCatalog grease ext curves pointFormats e \<noteq> None) extensions
      \<and> list_all (is_uint 16) ciphers)"

text \<open>The plan of a fingerprint that passes every check.\<close>

definition planOf ::
  "bool \<Rightarrow> TLSExtensions \<Rightarrow> string list \<Rightarrow> string list \<Rightarrow> string list \<Rightarrow> string list
     \<Rightarrow> ClientHelloSpec" where
  "planOf grease ext ciphers extensions curves pointFormats =
     \<lparr>CipherSuites = (if grease then [GREASE_PLACEHOLDER] else []) @ tokenValues ciphers,
      CompressionMethods = [0],
      Extensions = planExts grease (mergedCatalog grease ext curves pointFormats) extensions,
      GetSessionID = sha256_Sum256\<rparr>"

text \<open>No entry of the catalog is a marker extension.\<close>

definition noMarker :: "catalog \<Rightarrow> bool" where
  "noMarker extMap = (\<forall>e. extMap e \<noteq> Some UtlsGREASEExtension)"

section \<open>Properties\<close>

subsection \<open>Outcomes and indexing\<close>

lemma bind_Returns: "bind_outcome (Returns v) f = f v"
  by (simp add: bind_outcome_def)

lemma bind_Panics: "bind_outcome (Panics p) f = Panics p"
  by (simp add: bind_outcome_def)

lemma index_at_in: "i < length xs \<Longrightarrow> index_at xs (int i) = Returns (xs ! i)"
  by (simp add: index_at_def)

lemma index_at_last: "xs \<noteq> [] \<Longrightarrow> index_at xs (int (length xs) - 1) = Returns (last xs)"
  by (cases xs rule: rev_cases) (auto simp: index_at_def nth_append)

subsection \<open>Splitting the fingerprint\<close>

lemma Split_not_Nil: "Split s sep \<noteq> []"
  by (induction s) (auto split: list.splits)

lemma dropBlank_eq: "dropBlank xs = (if xs = [''''] then [] else xs)"
  by (cases xs) (auto simp: dropBlank_def)

lemma ja3_fields_short:
  assumes "length (Split ja3 CHR '','') < 5"
  shows "ja3_fields ja3 = Panics IndexOutOfRange"
proof -
  let ?t = "Split ja3 CHR '',''"
  have "length ?t \<noteq> 0" using Split_not_Nil [of ja3 "CHR '',''"] by simp
  with assms have "length ?t = 1 \<or> length ?t = 2 \<or> length ?t = 3 \<or> length ?t = 4"
    by arith
  then show ?thesis
    by (auto simp: ja3_fields_def Let_def bind_outcome_def index_at_def)
qed

lemma ja3_fields_long:
  assumes "5 \<le> length (Split ja3 CHR '','')"
  shows "ja3_fields ja3 =
     Returns (Split ja3 CHR '','' ! 0,
              Split (Split ja3 CHR '','' ! 1) CHR ''-'',
              Split (Split ja3 CHR '','' ! 2) CHR ''-'',
              dropBlank (Split (Split ja3 CHR '','' ! 3) CHR ''-''),
              dropBlank (Split (Split ja3 CHR '','' ! 4) CHR ''-''))"
proof -
  let ?t = "Split ja3 CHR '',''"
  have i: "\<And>k. k < 5 \<Longrightarrow> index_at ?t (int k) = Returns (?t ! k)"
    using assms by (simp add: index_at_in)
  show ?thesis
    using i [of 0] i [of 1] i [of 2] i [of 3] i [of 4]
    by (simp add: ja3_fields_def Let_def bind_Returns)
qed

lemma ja3_fields_Returns:
  assumes "ja3_fields ja3 = Returns (version, ciphers, extensions, curves, pointFormats)"
  shows "5 \<le> length (Split ja3 CHR '','')"
    and "version = Split ja3 CHR '','' ! 0"
    and "ciphers = Split (Split ja3 CHR '','' ! 1) CHR ''-''"
    and "extensions = Split (Split ja3 CHR '','' ! 2) CHR ''-''"
    and "curves = dropBlank (Split (Split ja3 CHR '','' ! 3) CHR ''-'')"
    and "pointFormats = dropBlank (Split (Split ja3 CHR '','' ! 4) CHR ''-'')"
proof -
  show l: "5 \<le> length (Split ja3 CHR '','')"
  proof (rule ccontr)
    assume "\<not> 5 \<le> length (Split ja3 CHR '','')"
    then have "ja3_fields ja3 = Panics IndexOutOfRange" by (simp add: ja3_fields_short)
    with assms show False by simp
  qed
  from ja3_fields_long [OF l] assms
  show "version = Split ja3 CHR '','' ! 0"
    and "ciphers = Split (Split ja3 CHR '','' ! 1) CHR ''-''"
    and "extensions = Split (Split ja3 CHR '','' ! 2) CHR ''-''"
    and "curves = dropBlank (Split (Split ja3 CHR '','' ! 3) CHR ''-'')"
    and "pointFormats = dropBlank (Split (Split ja3 CHR '','' ! 4) CHR ''-'')"
    by simp_all
qed

subsection \<open>\<open>ParseUint\<close> accepts exactly the unsigned decimals of the bit width\<close>

lemma foldl_dec_step_ge: "n \<le> foldl dec_step n cs"
proof (induction cs arbitrary: n)
  case Nil
  show ?case by simp
next
  case (Cons c cs)
  have "n \<le> dec_step n c" by (simp add: dec_step_def)
  also have "\<dots> \<le> foldl dec_step (dec_step n c) cs" by (rule Cons.IH)
  finally show ?case by simp
qed

lemma ParseUint_loop_Cons:
  "ParseUint_loop s0 maxVal (c # cs) n =
     (if is_digit c then
        (if n \<ge> cutoff then Inl (NumError ''ParseUint'' s0 ErrRange)
         else if (n * 10 mod 2 ^ 64 + ((of_char c :: nat) - 48)) mod 2 ^ 64 < n * 10 mod 2 ^ 64
                 \<or> (n * 10 mod 2 ^ 64 + ((of_char c :: nat) - 48)) mod 2 ^ 64 > maxVal
              then Inl (NumError ''ParseUint'' s0 ErrRange)
              else ParseUint_loop s0 maxVal cs
                     ((n * 10 mod 2 ^ 64 + ((of_char c :: nat) - 48)) mod 2 ^ 64))
      else Inl (NumError ''ParseUint'' s0 ErrSyntax))"
  by (simp add: is_digit_def Let_def)

lemma ParseUint_loop_Inr:
  assumes "maxVal < 2 ^ 64" and "n \<le> maxVal"
  shows "ParseUint_loop s0 maxVal cs n = Inr v \<longleftrightarrow>
         list_all is_digit cs \<and> foldl dec_step n cs \<le> maxVal \<and> v = foldl dec_step n cs"
  using assms(2)
proof (induction cs arbitrary: n)
  case Nil
  then show ?case by auto
next
  case (Cons c cs)
  show ?case
  proof (cases "is_digit c")
    case False
    then show ?thesis by (simp add: ParseUint_loop_Cons del: ParseUint_loop.simps)
  next
    case True
    let ?d = "(of_char c :: nat) - 48"
    have d: "?d \<le> 9" using True unfolding is_digit_def by arith
    have ge: "dec_step n c \<le> foldl dec_step (dec_step n c) cs" by (rule foldl_dec_step_ge)
    have ds: "dec_step n c = n * 10 + ?d" by (simp add: dec_step_def)
    show ?thesis
    proof (cases "n * 10 + ?d \<le> maxVal")
      case False
      then have big: "\<not> foldl dec_step (dec_step n c) cs \<le> maxVal" using ge ds by linarith
      have "ParseUint_loop s0 maxVal (c # cs) n = Inl (NumError ''ParseUint'' s0 ErrRange)"
      proof (cases "n \<ge> cutoff")
        case True
        then show ?thesis using \<open>is_digit c\<close>
          by (simp add: ParseUint_loop_Cons del: ParseUint_loop.simps)
      next
        case nc: False
        then have n10: "n * 10 < 2 ^ 64" by (simp add: cutoff_def)
        show ?thesis
        proof (cases "n * 10 + ?d < 2 ^ 64")
          case True
          then show ?thesis using \<open>is_digit c\<close> nc n10 False
            by (simp add: ParseUint_loop_Cons del: ParseUint_loop.simps)
        next
          case wrap: False
          then have "(n * 10 + ?d) mod 2 ^ 64 = n * 10 + ?d - 2 ^ 64"
            using n10 d by (simp add: mod_if)
          then have "(n * 10 + ?d) mod 2 ^ 64 < n * 10" using wrap d n10 by simp
          then show ?thesis using \<open>is_digit c\<close> nc n10
            by (simp add: ParseUint_loop_Cons del: ParseUint_loop.simps)
        qed
      qed
      then show ?thesis using big True by (simp del: ParseUint_loop.simps)
    next
      case le: True
      then have n10: "n * 10 < 2 ^ 64" and n1: "n * 10 + ?d < 2 ^ 64" using assms(1) by auto
      have nc: "\<not> n \<ge> cutoff" using n10 by (simp add: cutoff_def)
      have "ParseUint_loop s0 maxVal (c # cs) n = ParseUint_loop s0 maxVal cs (dec_step n c)"
        using \<open>is_digit c\<close> nc n10 n1 le
        by (simp add: ParseUint_loop_Cons dec_step_def del: ParseUint_loop.simps)
      then show ?thesis using Cons.IH [of "dec_step n c"] le ds True
        by (simp del: ParseUint_loop.simps)
    qed
  qed
qed

lemma ParseUint_loop_Inl:
  "ParseUint_loop s0 maxVal cs n = Inl e \<Longrightarrow> \<exists>k. e = NumError ''ParseUint'' s0 k"
  by (induction cs arbitrary: n)
     (auto simp: ParseUint_loop_Cons simp del: ParseUint_loop.simps(2) split: if_splits)

lemma ParseUint_Inr:
  assumes "bitSize \<le> 64"
  shows "ParseUint s bitSize = Inr v \<longleftrightarrow> is_uint bitSize s \<and> v = dec_value s"
proof -
  have "(2::nat) ^ bitSize \<le> 2 ^ 64" using assms by (intro power_increasing) simp_all
  then have m: "(2::nat) ^ bitSize - 1 < 2 ^ 64" by simp
  have pos: "0 < (2::nat) ^ bitSize" by simp
  have lt: "\<And>x::nat. x \<le> 2 ^ bitSize - Suc 0 \<longleftrightarrow> x < 2 ^ bitSize"
    using pos by arith
  show ?thesis
    using ParseUint_loop_Inr [OF m, of 0 s s v]
    by (auto simp: ParseUint_def is_uint_def dec_value_def lt)
qed

lemma ParseUint_Inl: "ParseUint s bitSize = Inl e \<Longrightarrow> \<exists>k. e = NumError ''ParseUint'' s k"
  by (auto simp: ParseUint_def dest: ParseUint_loop_Inl split: if_splits)

lemma ParseUint_not_uint:
  assumes "bitSize \<le> 64" and "\<not> is_uint bitSize s"
  shows "\<exists>k. ParseUint s bitSize = Inl (NumError ''ParseUint'' s k)"
proof (cases "ParseUint s bitSize")
  case (Inl e)
  then show ?thesis using ParseUint_Inl by blast
next
  case (Inr v)
  then show ?thesis using ParseUint_Inr [OF assms(1), of s v] assms(2) by simp
qed

subsection \<open>Parsing the token lists\<close>

lemma parseTokens_Inr:
  assumes "bitSize \<le> 64"
  shows "parseTokens bitSize ts target = Inr r \<longleftrightarrow>
         list_all (is_uint bitSize) ts \<and> r = target @ tokenValues ts"
proof (induction ts arbitrary: target)
  case Nil
  show ?case by (auto simp: tokenValues_def)
next
  case (Cons t ts)
  show ?case
  proof (cases "ParseUint t bitSize")
    case (Inl e)
    then have "\<not> is_uint bitSize t" using ParseUint_Inr [OF assms, of t "dec_value t"] by simp
    then show ?thesis using Inl by simp
  next
    case (Inr v)
    then have "is_uint bitSize t" and "v = dec_value t"
      using ParseUint_Inr [OF assms, of t v] by simp_all
    then show ?thesis using Inr Cons.IH [of "target @ [of_nat v]"]
      by (simp add: tokenValues_def)
  qed
qed

lemma parseTokens_valid:
  assumes "bitSize \<le> 64" and "list_all (is_uint bitSize) ts"
  shows "parseTokens bitSize ts target = Inr (target @ tokenValues ts)"
  using parseTokens_Inr [OF assms(1), of ts target "target @ tokenValues ts"] assms(2) by simp

lemma parseTokens_Inl:
  assumes "bitSize \<le> 64" and "parseTokens bitSize ts target = Inl e"
  shows "\<exists>t k. t \<in> set ts \<and> \<not> is_uint bitSize t \<and> e = NumError ''ParseUint'' t k"
  using assms(2)
proof (induction ts arbitrary: target)
  case Nil
  then show ?case by simp
next
  case (Cons t ts)
  show ?case
  proof (cases "ParseUint t bitSize")
    case (Inl e')
    then have e: "e' = e" using Cons.prems by simp
    have n: "\<not> is_uint bitSize t"
      using Inl ParseUint_Inr [OF assms(1), of t "dec_value t"] by simp
    obtain k where "e = NumError ''ParseUint'' t k" using Inl e ParseUint_Inl by blast
    then show ?thesis using n by auto
  next
    case (Inr v)
    with Cons.prems have "parseTokens bitSize ts (target @ [of_nat v]) = Inl e" by simp
    from Cons.IH [OF this] show ?thesis by auto
  qed
qed

lemma parseTokens_invalid:
  assumes "bitSize \<le> 64" and "\<not> list_all (is_uint bitSize) ts"
  shows "\<exists>t k. t \<in> set ts \<and> \<not> is_uint bitSize t
           \<and> parseTokens bitSize ts target = Inl (NumError ''ParseUint'' t k)"
proof (cases "parseTokens bitSize ts target")
  case (Inl e)
  from parseTokens_Inl [OF assms(1) Inl] show ?thesis using Inl by auto
next
  case (Inr r)
  then show ?thesis using parseTokens_Inr [OF assms(1), of ts target r] assms(2) by simp
qed

subsection \<open>The extension loop\<close>

lemma buildExts_Inr:
  assumes "i + length es = n" and "list_all (\<lambda>e. extMap e \<noteq> None) es"
  shows "buildExts extMap grease n i es exts = Inr (exts @ withMarker grease extMap es)"
  using assms
proof (induction es arbitrary: i exts)
  case Nil
  show ?case by (simp add: withMarker_def)
next
  case (Cons e es)
  from Cons.prems obtain te where te: "extMap e = Some te" by auto
  have rest: "Suc i + length es = n" "list_all (\<lambda>e. extMap e \<noteq> None) es"
    using Cons.prems by auto
  show ?case
  proof (cases "es = []")
    case True
    then have "int i = int n - 1" using Cons.prems by auto
    then show ?thesis using True te by (simp add: withMarker_def)
  next
    case False
    then have "int i \<noteq> int n - 1" using Cons.prems by auto
    then show ?thesis using False te Cons.IH [OF rest] by (simp add: withMarker_def)
  qed
qed

lemma buildExts_Inl:
  assumes "List.find (\<lambda>e. extMap e = None) es = Some x"
  shows "buildExts extMap grease n i es exts = Inl (ErrExtensionNotExist x)"
  using assms
proof (induction es arbitrary: i exts)
  case Nil
  then show ?case by simp
next
  case (Cons e es)
  show ?case
  proof (cases "extMap e")
    case None
    then show ?thesis using Cons.prems by (simp add: raiseExtensionError_def)
  next
    case (Some te)
    then have "List.find (\<lambda>e. extMap e = None) es = Some x" using Cons.prems by simp
    then show ?thesis using Some Cons.IH by (simp add: Let_def)
  qed
qed

lemma find_None_all:
  "List.find (\<lambda>e. extMap e = None) es = None \<longleftrightarrow> list_all (\<lambda>e. extMap e \<noteq> None) es"
  by (induction es) auto

lemma buildExts_closed:
  assumes "i + length es = n"
  shows "buildExts extMap grease n i es exts =
     (case List.find (\<lambda>e. extMap e = None) es of
        Some x \<Rightarrow> Inl (ErrExtensionNotExist x)
      | None \<Rightarrow> Inr (exts @ withMarker grease extMap es))"
proof (cases "List.find (\<lambda>e. extMap e = None) es")
  case None
  then have "list_all (\<lambda>e. extMap e \<noteq> None) es" by (simp only: find_None_all)
  from buildExts_Inr [OF assms this] show ?thesis using None by simp
next
  case (Some x)
  then show ?thesis using buildExts_Inl by simp
qed

subsection \<open>The catalog\<close>

lemma resolveCurves_closed:
  "resolveCurves grease extMap curves =
     (case parseTokens 16 curves (if grease then [GREASE_PLACEHOLDER] else []) of
        Inl err \<Rightarrow> Inl err
      | Inr targetCurves \<Rightarrow>
          Inr ((if grease then prependGREASE extMap else appendP256 extMap)
                 (''10'' \<mapsto> SupportedCurvesExtension targetCurves)))"
  by (simp add: resolveCurves_def Let_def)

lemma buildCatalog_valid:
  assumes "list_all (is_uint 16) curves" and "list_all (is_uint 8) pointFormats"
  shows "buildCatalog grease (Some ext) curves pointFormats =
           Inr (mergedCatalog grease ext curves pointFormats)"
proof -
  have c: "parseTokens 16 curves (if grease then [GREASE_PLACEHOLDER] else [])
             = Inr ((if grease then [GREASE_PLACEHOLDER] else []) @ (tokenValues curves :: uint16 list))"
    using assms(1) by (intro parseTokens_valid) simp_all
  have p: "parseTokens 8 pointFormats [] = Inr ([] @ (tokenValues pointFormats :: uint8 list))"
    using assms(2) by (intro parseTokens_valid) simp_all
  show ?thesis
    unfolding buildCatalog_def resolveCurves_closed c p mergedCatalog_def Let_def
    by simp
qed

lemma buildCatalog_Inr:
  assumes "buildCatalog grease (Some ext) curves pointFormats = Inr extMap"
  shows "list_all (is_uint 16) curves" and "list_all (is_uint 8) pointFormats"
    and "extMap = mergedCatalog grease ext curves pointFormats"
proof -
  show c: "list_all (is_uint 16) curves"
  proof (rule ccontr)
    assume "\<not> list_all (is_uint 16) curves"
    from parseTokens_invalid [OF _ this, of "if grease then [GREASE_PLACEHOLDER] else []"]
    obtain e where "parseTokens 16 curves (if grease then [GREASE_PLACEHOLDER] else [])
                      = (Inl e :: error + uint16 list)" by auto
    then show False using assms by (simp add: buildCatalog_def resolveCurves_closed)
  qed
  show p: "list_all (is_uint 8) pointFormats"
  proof (rule ccontr)
    assume "\<not> list_all (is_uint 8) pointFormats"
    from parseTokens_invalid [OF _ this, of "[]"]
    obtain e where "parseTokens 8 pointFormats [] = (Inl e :: error + uint8 list)" by auto
    then show False using assms
      by (simp add: buildCatalog_def resolveCurves_closed split: sum.splits)
  qed
  show "extMap = mergedCatalog grease ext curves pointFormats"
    using buildCatalog_valid [OF c p, of grease ext] assms by simp
qed

subsection \<open>\<open>StringToSpec\<close> step by step\<close>

lemma trailingGREASE_Returns:
  "extensions \<noteq> [] \<Longrightarrow>
   trailingGREASE ua g extensions =
     Returns (ua = chrome \<and> last extensions \<noteq> ''21'' \<and> last extensions \<noteq> ''41'' \<and> g)"
  by (simp add: trailingGREASE_def index_at_last bind_Returns)

lemma useGREASE_Some: "useGREASE ua (Some ext) = Returns (ua = chrome \<and> \<not> NotUsedGREASE ext)"
  by (simp add: useGREASE_def)

lemma StringToSpec_short:
  "length (Split ja3 CHR '','') < 5 \<Longrightarrow> StringToSpec u p ja3 ua = Panics IndexOutOfRange"
  by (simp add: StringToSpec_def ja3_fields_short bind_Panics)

lemma StringToSpec_closed:
  assumes f: "ja3_fields ja3 = Returns (version, ciphers, extensions, curves, pointFormats)"
  shows "StringToSpec u p ja3 ua =
     (case buildCatalog (greaseOn u p ua) (Some (receiver p)) curves pointFormats of
        Inl err \<Rightarrow> Returns (None, Some err)
      | Inr extMap \<Rightarrow>
         (case ParseUint version 16 of
            Inl err \<Rightarrow> Returns (None, Some err)
          | Inr vid64 \<Rightarrow>
             (case List.find (\<lambda>e. extMap e = None) extensions of
                Some x \<Rightarrow> Returns (None, Some (ErrExtensionNotExist x))
              | None \<Rightarrow>
                 (case parseTokens 16 ciphers (if greaseOn u p ua then [GREASE_PLACEHOLDER] else []) of
                    Inl err \<Rightarrow> Returns (None, Some err)
                  | Inr suites \<Rightarrow>
                      Returns (Some \<lparr>CipherSuites = suites, CompressionMethods = [0],
                                     Extensions = planExts (greaseOn u p ua) extMap extensions,
                                     GetSessionID = sha256_Sum256\<rparr>, None)))))"
proof -
  have ne: "extensions \<noteq> []" using ja3_fields_Returns(4) [OF f] Split_not_Nil by simp
  have r: "(if p = None then Some zero_TLSExtensions else p) = Some (receiver p)"
    by (cases p) (simp_all add: receiver_def)
  have b: "\<And>m acc. buildExts m (greaseOn u p ua) (length extensions) 0 extensions acc =
     (case List.find (\<lambda>e. m e = None) extensions of
        Some x \<Rightarrow> Inl (ErrExtensionNotExist x)
      | None \<Rightarrow> Inr (acc @ withMarker (greaseOn u p ua) m extensions))"
    by (rule buildExts_closed) simp
  let ?g = "greaseOn u p ua"
  have g: "(parseUserAgent u ua = chrome \<and> \<not> NotUsedGREASE (receiver p)) = ?g"
    by (simp add: greaseOn_def)
  have t: "(parseUserAgent u ua = chrome \<and> last extensions \<noteq> ''21'' \<and> last extensions \<noteq> ''41'' \<and> ?g)
           = (?g \<and> last extensions \<noteq> ''21'' \<and> last extensions \<noteq> ''41'')"
    by (auto simp: greaseOn_def)
  have unf: "StringToSpec u p ja3 ua =
     orReturnErr (buildCatalog ?g (Some (receiver p)) curves pointFormats) (\<lambda>extMap.
     orReturnErr (ParseUint version 16) (\<lambda>vid64.
     orReturnErr (buildExts extMap ?g (length extensions) 0 extensions
                    (if ?g then [UtlsGREASEExtension] else [])) (\<lambda>exts1.
     orReturnErr (parseTokens 16 ciphers (if ?g then [GREASE_PLACEHOLDER] else [])) (\<lambda>suites.
       Returns (Some \<lparr>CipherSuites = suites, CompressionMethods = [0],
                      Extensions = (if ?g \<and> last extensions \<noteq> ''21'' \<and> last extensions \<noteq> ''41''
                                    then exts1 @ [UtlsGREASEExtension] else exts1),
                      GetSessionID = sha256_Sum256\<rparr>, None)))))"
    unfolding StringToSpec_def Let_def r f bind_Returns compile_def prod.case useGREASE_Some
      trailingGREASE_Returns [OF ne] g t
    by (rule refl)
  show ?thesis
  proof (cases "buildCatalog ?g (Some (receiver p)) curves pointFormats")
    case (Inl err)
    then show ?thesis unfolding unf by (simp add: orReturnErr_def)
  next
    case m: (Inr extMap)
    show ?thesis
    proof (cases "ParseUint version 16")
      case (Inl err)
      then show ?thesis unfolding unf using m by (simp add: orReturnErr_def)
    next
      case v: (Inr vid64)
      show ?thesis
      proof (cases "List.find (\<lambda>e. extMap e = None) extensions")
        case (Some x)
        then show ?thesis unfolding unf using m v by (simp add: orReturnErr_def b)
      next
        case None
        show ?thesis
        proof (cases "parseTokens 16 ciphers (if ?g then [GREASE_PLACEHOLDER] else []) :: error + uint16 list")
          case (Inl err)
          then show ?thesis unfolding unf using m v None by (simp add: orReturnErr_def b)
        next
          case (Inr suites)
          then show ?thesis unfolding unf using m v None
            by (simp add: orReturnErr_def b planExts_def)
        qed
      qed
    qed
  qed
qed

lemma StringToSpec_valid:
  assumes f: "ja3_fields ja3 = Returns (version, ciphers, extensions, curves, pointFormats)"
    and v: "allValid (greaseOn u p ua) (receiver p) version ciphers extensions curves pointFormats"
  shows "StringToSpec u p ja3 ua =
     Returns (Some (planOf (greaseOn u p ua) (receiver p) ciphers extensions curves pointFormats), None)"
proof -
  define g where "g = greaseOn u p ua"
  define m where "m = mergedCatalog g (receiver p) curves pointFormats"
  define suites0 :: "uint16 list" where "suites0 = (if g then [GREASE_PLACEHOLDER] else [])"
  have c: "buildCatalog g (Some (receiver p)) curves pointFormats = Inr m"
    using v by (simp add: allValid_def buildCatalog_valid g_def m_def)
  have n: "ParseUint version 16 = Inr (dec_value version)"
    using v ParseUint_Inr [of 16 version "dec_value version"] by (simp add: allValid_def)
  have e: "List.find (\<lambda>e. m e = None) extensions = None"
    using v by (simp add: allValid_def find_None_all g_def m_def)
  have s: "parseTokens 16 ciphers suites0 = Inr (suites0 @ tokenValues ciphers)"
    using v by (intro parseTokens_valid) (simp_all add: allValid_def)
  have "StringToSpec u p ja3 ua =
     Returns (Some \<lparr>CipherSuites = suites0 @ tokenValues ciphers, CompressionMethods = [0],
                    Extensions = planExts g m extensions,
                    GetSessionID = sha256_Sum256\<rparr>, None)"
    unfolding StringToSpec_closed [OF f] g_def [symmetric] suites0_def [symmetric] c
    by (simp add: n e s)
  then show ?thesis by (simp add: planOf_def g_def m_def suites0_def)
qed

lemma StringToSpec_invalid:
  assumes f: "ja3_fields ja3 = Returns (version, ciphers, extensions, curves, pointFormats)"
    and v: "\<not> allValid (greaseOn u p ua) (receiver p) version ciphers extensions curves pointFormats"
  shows "\<exists>err. StringToSpec u p ja3 ua = Returns (None, Some err)"
proof -
  let ?g = "greaseOn u p ua"
  let ?m = "mergedCatalog ?g (receiver p) curves pointFormats"
  show ?thesis
  proof (cases "buildCatalog ?g (Some (receiver p)) curves pointFormats")
    case (Inl err)
    then show ?thesis unfolding StringToSpec_closed [OF f] by simp
  next
    case m: (Inr extMap)
    note cat = buildCatalog_Inr [OF m]
    show ?thesis
    proof (cases "ParseUint version 16")
      case (Inl err)
      then show ?thesis unfolding StringToSpec_closed [OF f] using m by simp
    next
      case n: (Inr vid64)
      then have vv: "is_uint 16 version" using ParseUint_Inr [of 16 version vid64] by simp
      show ?thesis
      proof (cases "List.find (\<lambda>e. extMap e = None) extensions")
        case (Some x)
        then show ?thesis unfolding StringToSpec_closed [OF f] using m n by simp
      next
        case None
        then have ee: "list_all (\<lambda>e. ?m e \<noteq> None) extensions"
          using cat(3) by (simp add: find_None_all)
        have "\<not> list_all (is_uint 16) ciphers"
          using v cat(1,2) vv ee by (simp add: allValid_def)
        from parseTokens_invalid [OF _ this, of "if ?g then [GREASE_PLACEHOLDER] else []"]
        obtain err where "parseTokens 16 ciphers (if ?g then [GREASE_PLACEHOLDER] else [])
                            = (Inl err :: error + uint16 list)" by auto
        then show ?thesis unfolding StringToSpec_closed [OF f] using m n None by simp
      qed
    qed
  qed
qed

lemma StringToSpec_total:
  "StringToSpec u p ja3 ua = Panics IndexOutOfRange
   \<or> (\<exists>plan. StringToSpec u p ja3 ua = Returns (Some plan, None))
   \<or> (\<exists>err. StringToSpec u p ja3 ua = Returns (None, Some err))"
proof (cases "ja3_fields ja3")
  case (Panics x)
  then have "length (Split ja3 CHR '','') < 5" using ja3_fields_long [of ja3] by fastforce
  then show ?thesis by (simp add: StringToSpec_short)
next
  case (Returns parsed)
  obtain version ciphers extensions curves pointFormats
    where "parsed = (version, ciphers, extensions, curves, pointFormats)"
    by (cases parsed) auto
  with Returns have f: "ja3_fields ja3 = Returns (version, ciphers, extensions, curves, pointFormats)"
    by simp
  show ?thesis
    using StringToSpec_valid [OF f, of u p ua] StringToSpec_invalid [OF f, of u p ua] by blast
qed

lemma StringToSpec_Some_plan:
  assumes f: "ja3_fields ja3 = Returns (version, ciphers, extensions, curves, pointFormats)"
    and s: "StringToSpec u p ja3 ua = Returns (Some plan, e)"
  shows "allValid (greaseOn u p ua) (receiver p) version ciphers extensions curves pointFormats"
    and "plan = planOf (greaseOn u p ua) (receiver p) ciphers extensions curves pointFormats"
    and "e = None"
proof -
  show a: "allValid (greaseOn u p ua) (receiver p) version ciphers extensions curves pointFormats"
    using StringToSpec_invalid [OF f, of u p ua] s by fastforce
  from StringToSpec_valid [OF f a] s
  show "plan = planOf (greaseOn u p ua) (receiver p) ciphers extensions curves pointFormats"
    and "e = None" by simp_all
qed

subsection \<open>The catalog after the override merge\<close>

lemma override_other: "k \<noteq> k' \<Longrightarrow> override field k' mk extMap k = extMap k"
  by (cases field) (simp_all add: override_def)

lemma applyOverrides_other:
  assumes "k \<noteq> ''13''" "k \<noteq> ''27''" "k \<noteq> ''28''" "k \<noteq> ''34''"
    and "k \<noteq> ''43''" "k \<noteq> ''45''" "k \<noteq> ''50''" "k \<noteq> ''51''"
  shows "applyOverrides ext extMap k = extMap k"
  using assms by (simp add: applyOverrides_def Let_def override_other)

lemma applyOverrides_zero: "applyOverrides zero_TLSExtensions extMap = extMap"
  by (simp add: applyOverrides_def zero_TLSExtensions_def override_def)

lemma applyOverrides_NotUsedGREASE:
  "applyOverrides (ext\<lparr>NotUsedGREASE := b\<rparr>) extMap = applyOverrides ext extMap"
  by (simp add: applyOverrides_def)

lemma noMarker_genMap: "noMarker genMap"
  unfolding noMarker_def genMap_def by (auto dest!: map_of_SomeD)

lemma noMarker_upd: "noMarker m \<Longrightarrow> v \<noteq> UtlsGREASEExtension \<Longrightarrow> noMarker (m(k \<mapsto> v))"
  by (simp add: noMarker_def)

lemma noMarker_override:
  "noMarker m \<Longrightarrow> (\<And>x. mk x \<noteq> UtlsGREASEExtension) \<Longrightarrow> noMarker (override field k mk m)"
  by (cases field) (simp_all add: override_def noMarker_upd)

lemma noMarker_applyOverrides: "noMarker m \<Longrightarrow> noMarker (applyOverrides ext m)"
  unfolding applyOverrides_def Let_def by (intro noMarker_override) simp_all

lemma noMarker_prependGREASE: "noMarker m \<Longrightarrow> noMarker (prependGREASE m)"
  by (auto simp: prependGREASE_def Let_def noMarker_upd split: option.splits TLSExtension.splits)

lemma noMarker_appendP256: "noMarker m \<Longrightarrow> noMarker (appendP256 m)"
  by (auto simp: appendP256_def noMarker_upd split: option.splits TLSExtension.splits)

lemma noMarker_mergedCatalog: "noMarker (mergedCatalog g ext curves pointFormats)"
  unfolding mergedCatalog_def
  by (intro noMarker_applyOverrides noMarker_upd)
     (simp_all add: noMarker_prependGREASE noMarker_appendP256 noMarker_genMap)

subsection \<open>The extension sequence\<close>

lemma withMarker_off: "withMarker False m es = map (\<lambda>e. the (m e)) es"
proof (cases es rule: rev_cases)
  case Nil
  then show ?thesis by (simp add: withMarker_def)
next
  case (snoc xs x)
  then show ?thesis by (simp add: withMarker_def)
qed

lemma planExts_off: "planExts False m es = map (\<lambda>e. the (m e)) es"
  by (simp add: planExts_def withMarker_off)

lemma planExts_on_last:
  assumes "es \<noteq> []" and "last es = ''41'' \<or> last es = ''21''"
  shows "planExts True m es =
           UtlsGREASEExtension # map (\<lambda>e. the (m e)) (butlast es)
             @ [UtlsGREASEExtension, the (m (last es))]"
  using assms by (auto simp: planExts_def withMarker_def)

lemma planExts_on_trailing:
  assumes "es \<noteq> []" and "last es \<noteq> ''41''" and "last es \<noteq> ''21''"
  shows "planExts True m es = UtlsGREASEExtension # map (\<lambda>e. the (m e)) es @ [UtlsGREASEExtension]"
proof -
  have "map (\<lambda>e. the (m e)) es = map (\<lambda>e. the (m e)) (butlast es) @ [the (m (last es))]"
    using assms(1) by (cases es rule: rev_cases) simp_all
  then show ?thesis using assms by (simp add: planExts_def withMarker_def)
qed

lemma length_planExts:
  assumes "es \<noteq> []"
  shows "length (planExts g m es) = length es + (if g then 2 else 0)"
proof (cases g)
  case False
  then show ?thesis by (simp add: planExts_off)
next
  case True
  show ?thesis
  proof (cases "last es = ''41'' \<or> last es = ''21''")
    case l: True
    have "length (butlast es) + 1 = length es" using assms by simp
    then show ?thesis using True planExts_on_last [OF assms l, of m] by simp
  next
    case False
    then show ?thesis using True planExts_on_trailing [OF assms, of m] by simp
  qed
qed

lemma count_map_noMarker:
  assumes "noMarker m" and "list_all (\<lambda>e. m e \<noteq> None) es"
  shows "count_list (map (\<lambda>e. the (m e)) es) UtlsGREASEExtension = 0"
  using assms by (induction es) (auto simp: noMarker_def)

lemma count_planExts:
  assumes "es \<noteq> []" and "noMarker m" and "list_all (\<lambda>e. m e \<noteq> None) es"
  shows "count_list (planExts g m es) UtlsGREASEExtension = (if g then 2 else 0)"
proof -
  have all: "count_list (map (\<lambda>e. the (m e)) es) UtlsGREASEExtension = 0"
    by (rule count_map_noMarker [OF assms(2,3)])
  obtain xs x where es: "es = xs @ [x]" using assms(1) by (cases es rule: rev_cases) auto
  have x: "the (m x) \<noteq> UtlsGREASEExtension" using assms(2,3) es by (auto simp: noMarker_def)
  have xs: "count_list (map (\<lambda>e. the (m e)) xs) UtlsGREASEExtension = 0"
    using all es by simp
  show ?thesis
  proof (cases g)
    case False
    then show ?thesis using all by (simp add: planExts_off)
  next
    case True
    show ?thesis
    proof (cases "last es = ''41'' \<or> last es = ''21''")
      case l: True
      show ?thesis using True x xs es planExts_on_last [OF assms(1) l, of m] by simp
    next
      case False
      then show ?thesis using True all planExts_on_trailing [OF assms(1), of m] by simp
    qed
  qed
qed

subsection \<open>Concrete inputs\<close>

lemmas lower_eval = ToLower_def lower_byte_def is_upper_ascii_def char_of_def bit_iff_odd

lemma parseUserAgent_chrome_example: "parseUserAgent id ''Mozilla/5.0 Chrome/120.0'' = chrome"
  by (simp add: parseUserAgent_def lower_eval)

lemma parseUserAgent_firefox_example: "parseUserAgent id ''Mozilla/5.0 Firefox/115.0'' = firefox"
  by (simp add: parseUserAgent_def lower_eval)

lemma chrome_not_firefox: "chrome \<noteq> firefox"
  by (simp add: chrome_def firefox_def)

lemmas fields_eval = ja3_fields_def Let_def bind_outcome_def index_at_def dropBlank_def

lemmas uint_eval = is_uint_def is_digit_def dec_value_def dec_step_def

lemma ja3_fields_example:
  "ja3_fields ''771,4865-4866,0-10-11,29-23-24,0'' =
     Returns (''771'', [''4865'', ''4866''], [''0'', ''10'', ''11''], [''29'', ''23'', ''24''], [''0''])"
  by (simp add: fields_eval)

section \<open>The claims\<close>

text \<open>
  C10. Whenever the lower-cased identity string contains \<open>chrome\<close> or \<open>applewebkit\<close>, the
  classifier answers chrome-like, also when the string contains \<open>firefox\<close>: the two
  chrome tests come first.
\<close>

theorem C10_chrome_markers_win:
  assumes "Contains (ToLower u userAgent) ''chrome'' \<or> Contains (ToLower u userAgent) ''applewebkit''"
    and "Contains userAgent ''firefox'' \<or> Contains (ToLower u userAgent) ''firefox''"
  shows "parseUserAgent u userAgent = chrome \<and> parseUserAgent u userAgent \<noteq> firefox"
  using assms(1) by (auto simp: parseUserAgent_def chrome_not_firefox)

theorem C10_chrome_markers_win_witness:
  "Contains (ToLower id ''Mozilla/5.0 AppleWebKit/537.36 Firefox/115.0'') ''applewebkit''
   \<and> Contains ''Mozilla/5.0 AppleWebKit/537.36 firefox/115.0'' ''firefox''
   \<and> parseUserAgent id ''Mozilla/5.0 AppleWebKit/537.36 Firefox/115.0'' = chrome
   \<and> parseUserAgent id ''Mozilla/5.0 AppleWebKit/537.36 firefox/115.0'' = chrome"
proof -
  have a: "Contains (ToLower id ''Mozilla/5.0 AppleWebKit/537.36 Firefox/115.0'') ''applewebkit''"
    by (simp add: lower_eval)
  have f: "Contains (ToLower id ''Mozilla/5.0 AppleWebKit/537.36 Firefox/115.0'') ''firefox''"
    by (simp add: lower_eval)
  have a': "Contains (ToLower id ''Mozilla/5.0 AppleWebKit/537.36 firefox/115.0'') ''applewebkit''"
    by (simp add: lower_eval)
  have f': "Contains ''Mozilla/5.0 AppleWebKit/537.36 firefox/115.0'' ''firefox''"
    by simp
  show ?thesis
    using C10_chrome_markers_win [of id "''Mozilla/5.0 AppleWebKit/537.36 Firefox/115.0''"]
      C10_chrome_markers_win [of id "''Mozilla/5.0 AppleWebKit/537.36 firefox/115.0''"]
      a f a' f' by blast
qed

text \<open>
  C1. A fingerprint with fewer than five fields makes \<open>StringToSpec\<close> panic with an index
  out of range at line 68, 69, 70 or 74: the call does not return, so it returns no error
  value. The claim asks for a returned error; the code does not check the field count.
\<close>

theorem C1_short_fingerprint_panics:
  assumes "length (Split ja3 CHR '','') < 5"
  shows "StringToSpec u p ja3 userAgent = Panics IndexOutOfRange
         \<and> (\<forall>plan err. StringToSpec u p ja3 userAgent \<noteq> Returns (plan, err))"
  using assms by (simp add: StringToSpec_short)

theorem C1_short_fingerprint_panics_witness:
  "length (Split ''771,4865-4866,0-10-11,29-23-24'' CHR '','') < 5
   \<and> StringToSpec id None ''771,4865-4866,0-10-11,29-23-24'' ''Mozilla/5.0 Chrome/120.0''
       = Panics IndexOutOfRange"
proof -
  have l: "length (Split ''771,4865-4866,0-10-11,29-23-24'' CHR '','') < 5" by simp
  from C1_short_fingerprint_panics [OF l, of id None "''Mozilla/5.0 Chrome/120.0''"] l
  show ?thesis by simp
qed

text \<open>
  C9. A nil receiver is replaced by the zero override struct at line 61, so the call
  behaves as with \<open>&TLSExtensions{}\<close>: no override is applied, \<open>NotUsedGREASE\<close> is false,
  a chrome-like identity gets its markers, and no call, on any receiver, dereferences a
  nil pointer.
\<close>

theorem C9_nil_receiver:
  "StringToSpec u None ja3 userAgent = StringToSpec u (Some zero_TLSExtensions) ja3 userAgent
   \<and> StringToSpec u p ja3 userAgent \<noteq> Panics NilPointerDereference
   \<and> \<not> NotUsedGREASE (receiver None)
   \<and> applyOverrides (receiver None) extMap = extMap
   \<and> (parseUserAgent u userAgent = chrome \<longrightarrow>
        (\<forall>plan e. StringToSpec u None ja3 userAgent = Returns (Some plan, e) \<longrightarrow>
           (\<exists>exts suites. Extensions plan = UtlsGREASEExtension # exts
              \<and> CipherSuites plan = GREASE_PLACEHOLDER # suites)
           \<and> count_list (Extensions plan) UtlsGREASEExtension = 2))"
proof (intro conjI impI allI)
  show "StringToSpec u None ja3 userAgent = StringToSpec u (Some zero_TLSExtensions) ja3 userAgent"
    by (simp add: StringToSpec_def)
  show "StringToSpec u p ja3 userAgent \<noteq> Panics NilPointerDereference"
    using StringToSpec_total [of u p ja3 userAgent] by auto
  show "\<not> NotUsedGREASE (receiver None)"
    by (simp add: receiver_def zero_TLSExtensions_def)
  show "applyOverrides (receiver None) extMap = extMap"
    by (simp add: receiver_def applyOverrides_zero)
next
  fix plan e
  assume c: "parseUserAgent u userAgent = chrome"
    and s: "StringToSpec u None ja3 userAgent = Returns (Some plan, e)"
  have g: "greaseOn u None userAgent"
    using c by (simp add: greaseOn_def receiver_def zero_TLSExtensions_def)
  obtain version ciphers extensions curves pointFormats
    where f: "ja3_fields ja3 = Returns (version, ciphers, extensions, curves, pointFormats)"
    using s by (cases "ja3_fields ja3") (auto simp: StringToSpec_def bind_Panics)
  have ne: "extensions \<noteq> []" using ja3_fields_Returns(4) [OF f] Split_not_Nil by simp
  note sp = StringToSpec_Some_plan [OF f s]
  let ?m = "mergedCatalog True (receiver None) curves pointFormats"
  have ex: "Extensions plan = planExts True ?m extensions"
    and cs: "CipherSuites plan = GREASE_PLACEHOLDER # tokenValues ciphers"
    using sp(2) g by (simp_all add: planOf_def)
  have "\<exists>exts. planExts True ?m extensions = UtlsGREASEExtension # exts"
    by (simp add: planExts_def)
  then show "\<exists>exts suites. Extensions plan = UtlsGREASEExtension # exts
              \<and> CipherSuites plan = GREASE_PLACEHOLDER # suites"
    using ex cs by auto
  have "list_all (\<lambda>e. ?m e \<noteq> None) extensions"
    using sp(1) g by (simp add: allValid_def)
  from count_planExts [OF ne noMarker_mergedCatalog this, of True]
  show "count_list (Extensions plan) UtlsGREASEExtension = 2" using ex by simp
qed

subsection \<open>Entries of the merged catalog that no override can replace\<close>

lemma prependGREASE_other: "k \<noteq> ''43'' \<Longrightarrow> k \<noteq> ''51'' \<Longrightarrow> prependGREASE m k = m k"
  by (simp add: prependGREASE_def Let_def split: option.splits TLSExtension.splits)

lemma appendP256_other: "k \<noteq> ''51'' \<Longrightarrow> appendP256 m k = m k"
  by (simp add: appendP256_def split: option.splits TLSExtension.splits)

lemma mergedCatalog_0: "mergedCatalog g ext curves pointFormats ''0'' = Some SNIExtension"
  by (simp add: mergedCatalog_def applyOverrides_other prependGREASE_other appendP256_other
        genMap_def)

lemma mergedCatalog_10:
  "mergedCatalog g ext curves pointFormats ''10'' =
     Some (SupportedCurvesExtension ((if g then [GREASE_PLACEHOLDER] else []) @ tokenValues curves))"
  by (simp add: mergedCatalog_def applyOverrides_other)

lemma mergedCatalog_11:
  "mergedCatalog g ext curves pointFormats ''11'' =
     Some (SupportedPointsExtension (tokenValues pointFormats))"
  by (simp add: mergedCatalog_def applyOverrides_other)

lemmas value_eval = tokenValues_def dec_value_def dec_step_def

text \<open>
  C8. The fingerprint \<open>771,4865-4866,0-10-11,29-23-24,0\<close>, compiled for a chrome-like
  identity with randomization on, under any overrides: the ciphers are the placeholder,
  4865, 4866; the extensions are a marker, SNI, the supported curves with payload
  placeholder, 29, 23, 24, the supported points, and one trailing marker.
\<close>

theorem C8_example_plan:
  assumes "parseUserAgent u userAgent = chrome" and "\<not> NotUsedGREASE (receiver p)"
  shows "StringToSpec u p ''771,4865-4866,0-10-11,29-23-24,0'' userAgent =
     Returns (Some \<lparr>CipherSuites = [GREASE_PLACEHOLDER, 4865, 4866],
                    CompressionMethods = [0],
                    Extensions = [UtlsGREASEExtension, SNIExtension,
                                  SupportedCurvesExtension [GREASE_PLACEHOLDER, 29, 23, 24],
                                  SupportedPointsExtension [0], UtlsGREASEExtension],
                    GetSessionID = sha256_Sum256\<rparr>, None)"
proof -
  have g: "greaseOn u p userAgent = True" using assms by (simp add: greaseOn_def)
  have v: "allValid (greaseOn u p userAgent) (receiver p) ''771'' [''4865'', ''4866'']
             [''0'', ''10'', ''11''] [''29'', ''23'', ''24''] [''0'']"
    unfolding g allValid_def
    by (simp add: mergedCatalog_0 mergedCatalog_10 mergedCatalog_11 uint_eval)
  show ?thesis
    unfolding StringToSpec_valid [OF ja3_fields_example v] g planOf_def planExts_def withMarker_def
    by (simp add: mergedCatalog_0 mergedCatalog_10 mergedCatalog_11 value_eval)
qed

theorem C8_example_plan_witness:
  "parseUserAgent id ''Mozilla/5.0 Chrome/120.0'' = chrome \<and> \<not> NotUsedGREASE (receiver None)
   \<and> StringToSpec id None ''771,4865-4866,0-10-11,29-23-24,0'' ''Mozilla/5.0 Chrome/120.0'' =
       Returns (Some \<lparr>CipherSuites = [GREASE_PLACEHOLDER, 4865, 4866],
                      CompressionMethods = [0],
                      Extensions = [UtlsGREASEExtension, SNIExtension,
                                    SupportedCurvesExtension [GREASE_PLACEHOLDER, 29, 23, 24],
                                    SupportedPointsExtension [0], UtlsGREASEExtension],
                      GetSessionID = sha256_Sum256\<rparr>, None)"
proof -
  have n: "\<not> NotUsedGREASE (receiver None)" by (simp add: receiver_def zero_TLSExtensions_def)
  from C8_example_plan [OF parseUserAgent_chrome_example n] parseUserAgent_chrome_example n
  show ?thesis by simp
qed

theorem C9_nil_receiver_witness:
  "StringToSpec id None ''771,4865-4866,0-10-11,29-23-24,0'' ''Mozilla/5.0 Chrome/120.0''
     = StringToSpec id (Some zero_TLSExtensions) ''771,4865-4866,0-10-11,29-23-24,0''
         ''Mozilla/5.0 Chrome/120.0''
   \<and> parseUserAgent id ''Mozilla/5.0 Chrome/120.0'' = chrome
   \<and> (\<exists>plan. StringToSpec id None ''771,4865-4866,0-10-11,29-23-24,0'' ''Mozilla/5.0 Chrome/120.0''
          = Returns (Some plan, None)
        \<and> count_list (Extensions plan) UtlsGREASEExtension = 2)"
proof -
  have n: "\<not> NotUsedGREASE (receiver None)" by (simp add: receiver_def zero_TLSExtensions_def)
  have g: "greaseOn id None ''Mozilla/5.0 Chrome/120.0'' = True"
    using n parseUserAgent_chrome_example by (simp add: greaseOn_def)
  have v: "allValid (greaseOn id None ''Mozilla/5.0 Chrome/120.0'') (receiver None) ''771''
             [''4865'', ''4866''] [''0'', ''10'', ''11''] [''29'', ''23'', ''24''] [''0'']"
    unfolding g allValid_def
    by (simp add: mergedCatalog_0 mergedCatalog_10 mergedCatalog_11 uint_eval)
  note s = StringToSpec_valid [OF ja3_fields_example v]
  from C9_nil_receiver [of id "''771,4865-4866,0-10-11,29-23-24,0''" "''Mozilla/5.0 Chrome/120.0''"
      None Map.empty] s parseUserAgent_chrome_example
  show ?thesis by blast
qed

text \<open>
  C4. When \<open>StringToSpec\<close> returns a plan, its extension sequence has the definitions of
  the parsed extension IDs, in order, and the markers: for a chrome-like identity with
  randomization not suppressed, one leading marker and one more, immediately before the
  last definition when the last ID is \<open>"41"\<close> or \<open>"21"\<close> and at the end otherwise; for any
  other identity or flag, none. The length is the number of IDs plus 2 or plus 0.
\<close>

theorem C4_extension_sequence:
  assumes "ja3_fields ja3 = Returns (version, ciphers, extensions, curves, pointFormats)"
    and "StringToSpec u p ja3 userAgent = Returns (Some plan, None)"
    and "g = (parseUserAgent u userAgent = chrome \<and> \<not> NotUsedGREASE (receiver p))"
    and "extMap = mergedCatalog g (receiver p) curves pointFormats"
  shows "length (Extensions plan) = length extensions + (if g then 2 else 0)
    \<and> count_list (Extensions plan) UtlsGREASEExtension = (if g then 2 else 0)
    \<and> (g \<and> (last extensions = ''41'' \<or> last extensions = ''21'') \<longrightarrow>
          Extensions plan =
            UtlsGREASEExtension # map (\<lambda>e. the (extMap e)) (butlast extensions)
              @ [UtlsGREASEExtension, the (extMap (last extensions))])
    \<and> (g \<and> last extensions \<noteq> ''41'' \<and> last extensions \<noteq> ''21'' \<longrightarrow>
          Extensions plan =
            UtlsGREASEExtension # map (\<lambda>e. the (extMap e)) extensions @ [UtlsGREASEExtension])
    \<and> (\<not> g \<longrightarrow> Extensions plan = map (\<lambda>e. the (extMap e)) extensions)"
proof -
  have ne: "extensions \<noteq> []" using ja3_fields_Returns(4) [OF assms(1)] Split_not_Nil by simp
  have g: "g = greaseOn u p userAgent" using assms(3) by (simp add: greaseOn_def)
  note sp = StringToSpec_Some_plan [OF assms(1,2)]
  have ex: "Extensions plan = planExts g extMap extensions"
    using sp(2) g assms(4) by (simp add: planOf_def)
  have dom: "list_all (\<lambda>e. extMap e \<noteq> None) extensions"
    using sp(1) g assms(4) by (simp add: allValid_def)
  have nm: "noMarker extMap" using assms(4) by (simp add: noMarker_mergedCatalog)
  show ?thesis
    unfolding ex
    using length_planExts [OF ne, of g extMap] count_planExts [OF ne nm dom, of g]
      planExts_on_last [OF ne, of extMap] planExts_on_trailing [OF ne, of extMap]
      planExts_off [of extMap extensions]
    by (cases g) simp_all
qed

lemma ja3_fields_padding_example:
  "ja3_fields ''771,4865,0-21,29,0'' = Returns (''771'', [''4865''], [''0'', ''21''], [''29''], [''0''])"
  by (simp add: fields_eval)

lemma mergedCatalog_21:
  "mergedCatalog g ext curves pointFormats ''21'' = Some (UtlsPaddingExtension BoringPaddingStyle)"
  by (simp add: mergedCatalog_def applyOverrides_other prependGREASE_other appendP256_other
        genMap_def)

theorem C4_extension_sequence_witness:
  "\<exists>plan. StringToSpec id None ''771,4865,0-21,29,0'' ''Mozilla/5.0 Chrome/120.0''
             = Returns (Some plan, None)
     \<and> Extensions plan =
         [UtlsGREASEExtension, SNIExtension, UtlsGREASEExtension,
          UtlsPaddingExtension BoringPaddingStyle]
     \<and> length (Extensions plan) = length [''0'', ''21''] + 2"
proof -
  let ?ua = "''Mozilla/5.0 Chrome/120.0''"
  let ?plan = "planOf True zero_TLSExtensions [''4865''] [''0'', ''21''] [''29''] [''0'']"
  have r: "receiver None = zero_TLSExtensions" by (simp add: receiver_def)
  have n: "\<not> NotUsedGREASE (receiver None)" by (simp add: receiver_def zero_TLSExtensions_def)
  have g: "greaseOn id None ?ua = True"
    using n parseUserAgent_chrome_example by (simp add: greaseOn_def)
  have gg: "True = (parseUserAgent id ?ua = chrome \<and> \<not> NotUsedGREASE (receiver None))"
    using n parseUserAgent_chrome_example by simp
  have v: "allValid (greaseOn id None ?ua) (receiver None) ''771''
             [''4865''] [''0'', ''21''] [''29''] [''0'']"
    unfolding g allValid_def
    by (simp add: mergedCatalog_0 mergedCatalog_21 uint_eval)
  have s: "StringToSpec id None ''771,4865,0-21,29,0'' ?ua = Returns (Some ?plan, None)"
    using StringToSpec_valid [OF ja3_fields_padding_example v] by (simp add: g r)
  from C4_extension_sequence [OF ja3_fields_padding_example s gg refl]
  have "Extensions ?plan =
         [UtlsGREASEExtension, SNIExtension, UtlsGREASEExtension,
          UtlsPaddingExtension BoringPaddingStyle]
     \<and> length (Extensions ?plan) = length [''0'', ''21''] + 2"
    by (simp add: r mergedCatalog_0 mergedCatalog_21)
  with s show ?thesis by blast
qed

text \<open>
  C5. Curve resolution on any catalog, when the curve tokens parse; \<open>grease\<close> is the
  value of the test of line 80, true exactly for a chrome-like identity whose receiver does
  not suppress randomization. With markers on: the supported-versions entry,
  if the catalog has one, gets the placeholder in front of its versions; the key-share
  entry, if present, gets in front a share of the placeholder group with the single data
  byte 0; the curve list starts with the placeholder. With markers off: the key-share
  entry, if present, gets a P-256 share at its end, the supported-versions entry is
  untouched, and the curve list has no placeholder. In both cases the parsed curve IDs
  follow in order, the list becomes entry \<open>"10"\<close> whatever was there, and every other
  entry is unchanged.
\<close>

theorem C5_curve_resolution:
  assumes "list_all (is_uint 16) curves"
    and "useGREASE parsedUserAgent (Some ext) = Returns grease"
  shows "grease = (parsedUserAgent = chrome \<and> \<not> NotUsedGREASE ext)
    \<and> (\<exists>extMap'. resolveCurves grease extMap curves = Inr extMap'
    \<and> extMap' ''10'' = Some (SupportedCurvesExtension
                              ((if grease then [GREASE_PLACEHOLDER] else []) @ tokenValues curves))
    \<and> (grease \<longrightarrow>
         (\<forall>versions. extMap ''43'' = Some (SupportedVersionsExtension versions) \<longrightarrow>
            extMap' ''43'' = Some (SupportedVersionsExtension (GREASE_PLACEHOLDER # versions)))
       \<and> (\<forall>keyShares. extMap ''51'' = Some (KeyShareExtension keyShares) \<longrightarrow>
            extMap' ''51'' = Some (KeyShareExtension (KeyShare GREASE_PLACEHOLDER [0] # keyShares))))
    \<and> (\<not> grease \<longrightarrow>
         (\<forall>keyShares. extMap ''51'' = Some (KeyShareExtension keyShares) \<longrightarrow>
            extMap' ''51'' = Some (KeyShareExtension (keyShares @ [KeyShare CurveP256 []])))
       \<and> extMap' ''43'' = extMap ''43'')
    \<and> (\<forall>k. k \<noteq> ''10'' \<and> k \<noteq> ''43'' \<and> k \<noteq> ''51'' \<longrightarrow> extMap' k = extMap k))"
proof -
  have u: "grease = (parsedUserAgent = chrome \<and> \<not> NotUsedGREASE ext)"
    using assms(2) by (simp add: useGREASE_Some)
  let ?m = "if grease then prependGREASE extMap else appendP256 extMap"
  let ?c = "(if grease then [GREASE_PLACEHOLDER] else []) @ (tokenValues curves :: uint16 list)"
  have "parseTokens 16 curves (if grease then [GREASE_PLACEHOLDER] else []) = Inr ?c"
    using assms by (intro parseTokens_valid) simp_all
  then have r: "resolveCurves grease extMap curves = Inr (?m(''10'' \<mapsto> SupportedCurvesExtension ?c))"
    by (simp add: resolveCurves_closed)
  have v: "\<And>versions. extMap ''43'' = Some (SupportedVersionsExtension versions) \<Longrightarrow>
      prependGREASE extMap ''43'' = Some (SupportedVersionsExtension (GREASE_PLACEHOLDER # versions))"
    by (simp add: prependGREASE_def Let_def split: option.splits TLSExtension.splits)
  have k: "\<And>keyShares. extMap ''51'' = Some (KeyShareExtension keyShares) \<Longrightarrow>
      prependGREASE extMap ''51'' = Some (KeyShareExtension (KeyShare GREASE_PLACEHOLDER [0] # keyShares))"
    by (simp add: prependGREASE_def Let_def split: option.splits TLSExtension.splits)
  have a: "\<And>keyShares. extMap ''51'' = Some (KeyShareExtension keyShares) \<Longrightarrow>
      appendP256 extMap ''51'' = Some (KeyShareExtension (keyShares @ [KeyShare CurveP256 []]))"
    by (simp add: appendP256_def)
  have a43: "appendP256 extMap ''43'' = extMap ''43''" by (simp add: appendP256_other)
  have o: "\<And>k. k \<noteq> ''43'' \<Longrightarrow> k \<noteq> ''51'' \<Longrightarrow> ?m k = extMap k"
    by (simp add: prependGREASE_other appendP256_other)
  have "\<exists>extMap'. resolveCurves grease extMap curves = Inr extMap'
    \<and> extMap' ''10'' = Some (SupportedCurvesExtension ?c)
    \<and> (grease \<longrightarrow>
         (\<forall>versions. extMap ''43'' = Some (SupportedVersionsExtension versions) \<longrightarrow>
            extMap' ''43'' = Some (SupportedVersionsExtension (GREASE_PLACEHOLDER # versions)))
       \<and> (\<forall>keyShares. extMap ''51'' = Some (KeyShareExtension keyShares) \<longrightarrow>
            extMap' ''51'' = Some (KeyShareExtension (KeyShare GREASE_PLACEHOLDER [0] # keyShares))))
    \<and> (\<not> grease \<longrightarrow>
         (\<forall>keyShares. extMap ''51'' = Some (KeyShareExtension keyShares) \<longrightarrow>
            extMap' ''51'' = Some (KeyShareExtension (keyShares @ [KeyShare CurveP256 []])))
       \<and> extMap' ''43'' = extMap ''43'')
    \<and> (\<forall>k. k \<noteq> ''10'' \<and> k \<noteq> ''43'' \<and> k \<noteq> ''51'' \<longrightarrow> extMap' k = extMap k)"
    unfolding r using v k a a43 o by (cases grease) simp_all
  with u show ?thesis by (rule conjI)
qed

theorem C5_curve_resolution_witness:
  "list_all (is_uint 16) [''29'', ''23'']
   \<and> useGREASE chrome (Some zero_TLSExtensions) = Returns True
   \<and> useGREASE firefox (Some zero_TLSExtensions) = Returns False
   \<and> (\<exists>extMap'. resolveCurves True genMap [''29'', ''23''] = Inr extMap'
        \<and> extMap' ''10'' = Some (SupportedCurvesExtension [GREASE_PLACEHOLDER, 29, 23])
        \<and> extMap' ''43'' = Some (SupportedVersionsExtension
                                   [GREASE_PLACEHOLDER, VersionTLS13, VersionTLS12])
        \<and> extMap' ''51'' = Some (KeyShareExtension
                                   [KeyShare GREASE_PLACEHOLDER [0], KeyShare X25519 []]))
   \<and> (\<exists>extMap'. resolveCurves False genMap [''29'', ''23''] = Inr extMap'
        \<and> extMap' ''10'' = Some (SupportedCurvesExtension [29, 23])
        \<and> extMap' ''43'' = Some (SupportedVersionsExtension [VersionTLS13, VersionTLS12])
        \<and> extMap' ''51'' = Some (KeyShareExtension [KeyShare X25519 [], KeyShare CurveP256 []]))"
proof -
  have c: "list_all (is_uint 16) [''29'', ''23'']" by (simp add: uint_eval)
  have t: "(tokenValues [''29'', ''23''] :: uint16 list) = [29, 23]" by (simp add: value_eval)
  have g43: "genMap ''43'' = Some (SupportedVersionsExtension [VersionTLS13, VersionTLS12])"
    by (simp add: genMap_def)
  have g51: "genMap ''51'' = Some (KeyShareExtension [KeyShare X25519 []])"
    by (simp add: genMap_def)
  have on: "useGREASE chrome (Some zero_TLSExtensions) = Returns True"
    by (simp add: useGREASE_def zero_TLSExtensions_def)
  have off: "useGREASE firefox (Some zero_TLSExtensions) = Returns False"
    using chrome_not_firefox by (simp add: useGREASE_def)
  from C5_curve_resolution [OF c on, of genMap] C5_curve_resolution [OF c off, of genMap]
  show ?thesis using c on off by (auto simp: t g43 g51)
qed

text \<open>
  C7. A firefox-like identity, whatever the flag \<open>NotUsedGREASE\<close>, and a chrome-like
  identity with the flag set compile the same fingerprint under the same overrides to the
  same outcome. A plan so compiled has no marker extension, its extensions are the
  definitions of the parsed IDs, its ciphers are the parsed ciphers with no placeholder
  in front, and the supported-curves payload is the parsed curves.
\<close>

theorem C7_marker_free_paths_agree:
  assumes "parseUserAgent u firefoxAgent = firefox" and "parseUserAgent u chromeAgent = chrome"
  shows "StringToSpec u (Some (ext\<lparr>NotUsedGREASE := b\<rparr>)) ja3 firefoxAgent
           = StringToSpec u (Some (ext\<lparr>NotUsedGREASE := True\<rparr>)) ja3 chromeAgent
    \<and> (\<forall>version ciphers extensions curves pointFormats plan e.
         ja3_fields ja3 = Returns (version, ciphers, extensions, curves, pointFormats) \<longrightarrow>
         StringToSpec u (Some (ext\<lparr>NotUsedGREASE := b\<rparr>)) ja3 firefoxAgent = Returns (Some plan, e) \<longrightarrow>
           UtlsGREASEExtension \<notin> set (Extensions plan)
           \<and> Extensions plan
               = map (\<lambda>e. the (mergedCatalog False ext curves pointFormats e)) extensions
           \<and> CipherSuites plan = tokenValues ciphers
           \<and> mergedCatalog False ext curves pointFormats ''10''
               = Some (SupportedCurvesExtension (tokenValues curves)))"
proof (intro conjI allI impI)
  let ?pf = "Some (ext\<lparr>NotUsedGREASE := b\<rparr>)"
  let ?pc = "Some (ext\<lparr>NotUsedGREASE := True\<rparr>)"
  have gf: "greaseOn u ?pf firefoxAgent = False"
    using assms(1) chrome_not_firefox by (simp add: greaseOn_def)
  have gc: "greaseOn u ?pc chromeAgent = False"
    by (simp add: greaseOn_def receiver_def)
  have cat: "\<And>c pf. buildCatalog False (Some (receiver ?pf)) c pf
                     = buildCatalog False (Some (receiver ?pc)) c pf"
    unfolding buildCatalog_def receiver_def option.case applyOverrides_NotUsedGREASE
    by (rule refl)
  show "StringToSpec u ?pf ja3 firefoxAgent = StringToSpec u ?pc ja3 chromeAgent"
  proof (cases "ja3_fields ja3")
    case (Panics x)
    then show ?thesis by (simp add: StringToSpec_def bind_Panics)
  next
    case (Returns parsed)
    obtain version ciphers extensions curves pointFormats
      where "parsed = (version, ciphers, extensions, curves, pointFormats)"
      by (cases parsed) auto
    with Returns have f: "ja3_fields ja3 = Returns (version, ciphers, extensions, curves, pointFormats)"
      by simp
    show ?thesis
      unfolding StringToSpec_closed [OF f] gf gc cat by (rule refl)
  qed
  fix version ciphers extensions curves pointFormats plan e
  assume f: "ja3_fields ja3 = Returns (version, ciphers, extensions, curves, pointFormats)"
    and s: "StringToSpec u ?pf ja3 firefoxAgent = Returns (Some plan, e)"
  let ?m = "mergedCatalog False ext curves pointFormats"
  have m: "mergedCatalog False (receiver ?pf) curves pointFormats = ?m"
    by (simp add: mergedCatalog_def receiver_def applyOverrides_NotUsedGREASE)
  note sp = StringToSpec_Some_plan [OF f s]
  have ne: "extensions \<noteq> []" using ja3_fields_Returns(4) [OF f] Split_not_Nil by simp
  show ex: "Extensions plan = map (\<lambda>e. the (?m e)) extensions"
    using sp(2) by (simp add: planOf_def gf m planExts_off)
  show "CipherSuites plan = tokenValues ciphers"
    using sp(2) by (simp add: planOf_def gf)
  show "?m ''10'' = Some (SupportedCurvesExtension (tokenValues curves))"
    by (simp add: mergedCatalog_10)
  have dom: "list_all (\<lambda>e. ?m e \<noteq> None) extensions"
    using sp(1) by (simp add: allValid_def gf m)
  have "count_list (Extensions plan) UtlsGREASEExtension = 0"
    unfolding ex by (rule count_map_noMarker [OF noMarker_mergedCatalog dom])
  then show "UtlsGREASEExtension \<notin> set (Extensions plan)"
    by (simp add: count_list_0_iff)
qed

theorem C7_marker_free_paths_agree_witness:
  "parseUserAgent id ''Mozilla/5.0 Firefox/115.0'' = firefox
   \<and> parseUserAgent id ''Mozilla/5.0 Chrome/120.0'' = chrome
   \<and> StringToSpec id (Some (zero_TLSExtensions\<lparr>NotUsedGREASE := False\<rparr>))
         ''771,4865-4866,0-10-11,29-23-24,0'' ''Mozilla/5.0 Firefox/115.0''
       = StringToSpec id (Some (zero_TLSExtensions\<lparr>NotUsedGREASE := True\<rparr>))
           ''771,4865-4866,0-10-11,29-23-24,0'' ''Mozilla/5.0 Chrome/120.0''
   \<and> StringToSpec id (Some (zero_TLSExtensions\<lparr>NotUsedGREASE := True\<rparr>))
         ''771,4865-4866,0-10-11,29-23-24,0'' ''Mozilla/5.0 Chrome/120.0''
       = Returns (Some \<lparr>CipherSuites = [4865, 4866], CompressionMethods = [0],
                        Extensions = [SNIExtension, SupportedCurvesExtension [29, 23, 24],
                                      SupportedPointsExtension [0]],
                        GetSessionID = sha256_Sum256\<rparr>, None)"
proof -
  let ?p = "Some (zero_TLSExtensions\<lparr>NotUsedGREASE := True\<rparr>)"
  let ?ua = "''Mozilla/5.0 Chrome/120.0''"
  have g: "greaseOn id ?p ?ua = False" by (simp add: greaseOn_def receiver_def)
  have v: "allValid (greaseOn id ?p ?ua) (receiver ?p) ''771'' [''4865'', ''4866'']
             [''0'', ''10'', ''11''] [''29'', ''23'', ''24''] [''0'']"
    unfolding g allValid_def
    by (simp add: mergedCatalog_0 mergedCatalog_10 mergedCatalog_11 uint_eval)
  have s: "StringToSpec id ?p ''771,4865-4866,0-10-11,29-23-24,0'' ?ua
       = Returns (Some \<lparr>CipherSuites = [4865, 4866], CompressionMethods = [0],
                        Extensions = [SNIExtension, SupportedCurvesExtension [29, 23, 24],
                                      SupportedPointsExtension [0]],
                        GetSessionID = sha256_Sum256\<rparr>, None)"
    unfolding StringToSpec_valid [OF ja3_fields_example v] g planOf_def planExts_def withMarker_def
    by (simp add: mergedCatalog_0 mergedCatalog_10 mergedCatalog_11 value_eval)
  from C7_marker_free_paths_agree [OF parseUserAgent_firefox_example parseUserAgent_chrome_example,
      of False zero_TLSExtensions "''771,4865-4866,0-10-11,29-23-24,0''"]
    parseUserAgent_firefox_example parseUserAgent_chrome_example s
  show ?thesis by simp
qed

subsection \<open>Facts for the corrected claims\<close>

lemma not_uint_empty: "\<not> is_uint bitSize ''''"
  by (simp add: is_uint_def)

lemma mergedCatalog_empty_key: "mergedCatalog g ext curves pointFormats '''' = None"
  by (simp add: mergedCatalog_def applyOverrides_other prependGREASE_other appendP256_other
        genMap_def)

lemma dropBlank_empty: "dropBlank [''''] = []"
  by (simp add: dropBlank_def)

lemma find_first:
  assumes "list_all (\<lambda>e. \<not> P e) pre" and "P x"
  shows "List.find P (pre @ x # post) = Some x"
  using assms by (induction pre) simp_all

lemma HasPrefix_append: "HasPrefix (x @ rest) x"
  by (induction x) simp_all

lemma Contains_HasPrefix: "HasPrefix s x \<Longrightarrow> Contains s x"
  by (cases s; cases x) simp_all

lemma Contains_append: "Contains s x \<Longrightarrow> Contains (pre @ s) x"
  by (induction pre) simp_all

lemma Error_names_context: "Contains (Error_errExtensionNotExist x) x"
  unfolding Error_errExtensionNotExist_def
  by (intro Contains_append Contains_HasPrefix HasPrefix_append)

lemma StringToSpec_error_order:
  assumes f: "ja3_fields ja3 = Returns (version, ciphers, extensions, curves, pointFormats)"
    and g: "g = greaseOn u p userAgent"
    and m: "extMap = mergedCatalog g (receiver p) curves pointFormats"
  shows "\<not> list_all (is_uint 16) curves \<Longrightarrow>
           \<exists>t k. t \<in> set curves \<and> \<not> is_uint 16 t
             \<and> StringToSpec u p ja3 userAgent = Returns (None, Some (NumError ''ParseUint'' t k))"
    and "list_all (is_uint 16) curves \<Longrightarrow> \<not> list_all (is_uint 8) pointFormats \<Longrightarrow>
           \<exists>t k. t \<in> set pointFormats \<and> \<not> is_uint 8 t
             \<and> StringToSpec u p ja3 userAgent = Returns (None, Some (NumError ''ParseUint'' t k))"
    and "list_all (is_uint 16) curves \<Longrightarrow> list_all (is_uint 8) pointFormats \<Longrightarrow>
         \<not> is_uint 16 version \<Longrightarrow>
           \<exists>k. StringToSpec u p ja3 userAgent = Returns (None, Some (NumError ''ParseUint'' version k))"
    and "list_all (is_uint 16) curves \<Longrightarrow> list_all (is_uint 8) pointFormats \<Longrightarrow>
         is_uint 16 version \<Longrightarrow> List.find (\<lambda>e. extMap e = None) extensions = Some x \<Longrightarrow>
           StringToSpec u p ja3 userAgent = Returns (None, Some (ErrExtensionNotExist x))"
    and "list_all (is_uint 16) curves \<Longrightarrow> list_all (is_uint 8) pointFormats \<Longrightarrow>
         is_uint 16 version \<Longrightarrow> list_all (\<lambda>e. extMap e \<noteq> None) extensions \<Longrightarrow>
         \<not> list_all (is_uint 16) ciphers \<Longrightarrow>
           \<exists>t k. t \<in> set ciphers \<and> \<not> is_uint 16 t
             \<and> StringToSpec u p ja3 userAgent = Returns (None, Some (NumError ''ParseUint'' t k))"
proof -
  define suites0 :: "uint16 list" where "suites0 = (if g then [GREASE_PLACEHOLDER] else [])"
  note closed = StringToSpec_closed [OF f, of u p userAgent, folded g, folded suites0_def]
  {
    assume c: "\<not> list_all (is_uint 16) curves"
    from parseTokens_invalid [OF _ c, of suites0]
    obtain t k where t: "t \<in> set curves" "\<not> is_uint 16 t"
      and e: "parseTokens 16 curves suites0 = (Inl (NumError ''ParseUint'' t k) :: error + uint16 list)"
      by auto
    have "buildCatalog g (Some (receiver p)) curves pointFormats = Inl (NumError ''ParseUint'' t k)"
      using e by (simp add: buildCatalog_def resolveCurves_closed suites0_def)
    then have "StringToSpec u p ja3 userAgent = Returns (None, Some (NumError ''ParseUint'' t k))"
      unfolding closed by simp
    then show "\<exists>t k. t \<in> set curves \<and> \<not> is_uint 16 t
             \<and> StringToSpec u p ja3 userAgent = Returns (None, Some (NumError ''ParseUint'' t k))"
      using t by blast
  }
  {
    assume c: "list_all (is_uint 16) curves" and q: "\<not> list_all (is_uint 8) pointFormats"
    from parseTokens_invalid [OF _ q, of "[]"]
    obtain t k where t: "t \<in> set pointFormats" "\<not> is_uint 8 t"
      and e: "parseTokens 8 pointFormats [] = (Inl (NumError ''ParseUint'' t k) :: error + uint8 list)"
      by auto
    have "parseTokens 16 curves suites0 = Inr (suites0 @ tokenValues curves)"
      using c by (intro parseTokens_valid) simp_all
    then have "buildCatalog g (Some (receiver p)) curves pointFormats = Inl (NumError ''ParseUint'' t k)"
      using e by (simp add: buildCatalog_def resolveCurves_closed suites0_def)
    then have "StringToSpec u p ja3 userAgent = Returns (None, Some (NumError ''ParseUint'' t k))"
      unfolding closed by simp
    then show "\<exists>t k. t \<in> set pointFormats \<and> \<not> is_uint 8 t
             \<and> StringToSpec u p ja3 userAgent = Returns (None, Some (NumError ''ParseUint'' t k))"
      using t by blast
  }
  {
    assume c: "list_all (is_uint 16) curves" and q: "list_all (is_uint 8) pointFormats"
    have cat: "buildCatalog g (Some (receiver p)) curves pointFormats = Inr extMap"
      using buildCatalog_valid [OF c q] m by simp
    {
      assume "\<not> is_uint 16 version"
      from ParseUint_not_uint [OF _ this]
      obtain k where "ParseUint version 16 = Inl (NumError ''ParseUint'' version k)" by auto
      then have "StringToSpec u p ja3 userAgent = Returns (None, Some (NumError ''ParseUint'' version k))"
        unfolding closed cat by simp
      then show "\<exists>k. StringToSpec u p ja3 userAgent
                       = Returns (None, Some (NumError ''ParseUint'' version k))" by blast
    }
    assume "is_uint 16 version"
    then have v: "ParseUint version 16 = Inr (dec_value version)"
      using ParseUint_Inr [of 16 version "dec_value version"] by simp
    {
      assume "List.find (\<lambda>e. extMap e = None) extensions = Some x"
      then show "StringToSpec u p ja3 userAgent = Returns (None, Some (ErrExtensionNotExist x))"
        unfolding closed cat v by simp
    }
    assume "list_all (\<lambda>e. extMap e \<noteq> None) extensions"
    then have e: "List.find (\<lambda>e. extMap e = None) extensions = None"
      by (simp add: find_None_all)
    assume s: "\<not> list_all (is_uint 16) ciphers"
    from parseTokens_invalid [OF _ s, of suites0]
    obtain t k where t: "t \<in> set ciphers" "\<not> is_uint 16 t"
      and pe: "parseTokens 16 ciphers suites0 = (Inl (NumError ''ParseUint'' t k) :: error + uint16 list)"
      by auto
    have "StringToSpec u p ja3 userAgent = Returns (None, Some (NumError ''ParseUint'' t k))"
      unfolding closed cat v by (simp add: e pe)
    then show "\<exists>t k. t \<in> set ciphers \<and> \<not> is_uint 16 t
             \<and> StringToSpec u p ja3 userAgent = Returns (None, Some (NumError ''ParseUint'' t k))"
      using t by blast
  }
qed

lemma StringToSpec_plan_iff:
  assumes f: "ja3_fields ja3 = Returns (version, ciphers, extensions, curves, pointFormats)"
  shows "(\<exists>plan. StringToSpec u p ja3 userAgent = Returns (Some plan, None)) \<longleftrightarrow>
         allValid (greaseOn u p userAgent) (receiver p) version ciphers extensions curves pointFormats"
  using StringToSpec_valid [OF f, of u p userAgent] StringToSpec_Some_plan(1) [OF f, of u p userAgent]
  by blast

text \<open>
  C2, as the code has it. In a fingerprint of five fields, an empty curve field gives the
  empty curve list and an empty point-format field the empty point-format list; an empty
  list passes its loop, so whether a plan is returned is decided by the other fields
  alone, and with an empty curve field the supported-curves payload is the placeholder
  alone or the empty list. The cipher field and the extension-ID field have no such test:
  when empty they parse to the one-element list of the empty string, and \<open>StringToSpec\<close>
  returns an error.
\<close>

theorem C2_empty_list_fields:
  assumes "length (Split ja3 CHR '','') = 5"
    and "g = greaseOn u p userAgent"
  shows "\<exists>version ciphers extensions curves pointFormats.
      ja3_fields ja3 = Returns (version, ciphers, extensions, curves, pointFormats)
    \<and> (Split ja3 CHR '','' ! 3 = '''' \<longrightarrow>
          curves = []
        \<and> mergedCatalog g (receiver p) curves pointFormats ''10''
            = Some (SupportedCurvesExtension (if g then [GREASE_PLACEHOLDER] else []))
        \<and> ((\<exists>plan. StringToSpec u p ja3 userAgent = Returns (Some plan, None)) \<longleftrightarrow>
             list_all (is_uint 8) pointFormats \<and> is_uint 16 version
             \<and> list_all (\<lambda>e. mergedCatalog g (receiver p) [] pointFormats e \<noteq> None) extensions
             \<and> list_all (is_uint 16) ciphers))
    \<and> (Split ja3 CHR '','' ! 4 = '''' \<longrightarrow>
          pointFormats = []
        \<and> ((\<exists>plan. StringToSpec u p ja3 userAgent = Returns (Some plan, None)) \<longleftrightarrow>
             list_all (is_uint 16) curves \<and> is_uint 16 version
             \<and> list_all (\<lambda>e. mergedCatalog g (receiver p) curves [] e \<noteq> None) extensions
             \<and> list_all (is_uint 16) ciphers))
    \<and> (Split ja3 CHR '','' ! 1 = '''' \<longrightarrow>
          ciphers = [''''] \<and> (\<exists>err. StringToSpec u p ja3 userAgent = Returns (None, Some err)))
    \<and> (Split ja3 CHR '','' ! 2 = '''' \<longrightarrow>
          extensions = [''''] \<and> (\<exists>err. StringToSpec u p ja3 userAgent = Returns (None, Some err)))"
proof -
  let ?t = "Split ja3 CHR '',''"
  let ?version = "?t ! 0"
  let ?ciphers = "Split (?t ! 1) CHR ''-''"
  let ?extensions = "Split (?t ! 2) CHR ''-''"
  let ?curves = "dropBlank (Split (?t ! 3) CHR ''-'')"
  let ?pointFormats = "dropBlank (Split (?t ! 4) CHR ''-'')"
  have f: "ja3_fields ja3 = Returns (?version, ?ciphers, ?extensions, ?curves, ?pointFormats)"
    using assms(1) by (intro ja3_fields_long) simp
  note iff = StringToSpec_plan_iff [OF f, of u p userAgent, folded assms(2)]
  note inv = StringToSpec_invalid [OF f, of u p userAgent, folded assms(2)]
  have c3: "?t ! 3 = '''' \<Longrightarrow> ?curves = []" by (simp add: dropBlank_empty)
  have c4: "?t ! 4 = '''' \<Longrightarrow> ?pointFormats = []" by (simp add: dropBlank_empty)
  have c1: "?t ! 1 = '''' \<Longrightarrow> ?ciphers = ['''']" by simp
  have c2: "?t ! 2 = '''' \<Longrightarrow> ?extensions = ['''']" by simp
  have e1: "?t ! 1 = '''' \<Longrightarrow> \<exists>err. StringToSpec u p ja3 userAgent = Returns (None, Some err)"
    by (rule inv) (simp add: allValid_def not_uint_empty)
  have e2: "?t ! 2 = '''' \<Longrightarrow> \<exists>err. StringToSpec u p ja3 userAgent = Returns (None, Some err)"
    by (rule inv) (simp add: allValid_def mergedCatalog_empty_key)
  have p3: "?t ! 3 = '''' \<Longrightarrow>
      ((\<exists>plan. StringToSpec u p ja3 userAgent = Returns (Some plan, None)) \<longleftrightarrow>
         list_all (is_uint 8) ?pointFormats \<and> is_uint 16 ?version
         \<and> list_all (\<lambda>e. mergedCatalog g (receiver p) [] ?pointFormats e \<noteq> None) ?extensions
         \<and> list_all (is_uint 16) ?ciphers)"
    unfolding iff allValid_def by (simp add: dropBlank_empty)
  have p4: "?t ! 4 = '''' \<Longrightarrow>
      ((\<exists>plan. StringToSpec u p ja3 userAgent = Returns (Some plan, None)) \<longleftrightarrow>
         list_all (is_uint 16) ?curves \<and> is_uint 16 ?version
         \<and> list_all (\<lambda>e. mergedCatalog g (receiver p) ?curves [] e \<noteq> None) ?extensions
         \<and> list_all (is_uint 16) ?ciphers)"
    unfolding iff allValid_def by (simp add: dropBlank_empty)
  have m10: "?t ! 3 = '''' \<Longrightarrow> mergedCatalog g (receiver p) ?curves ?pointFormats ''10''
            = Some (SupportedCurvesExtension (if g then [GREASE_PLACEHOLDER] else []))"
    by (simp add: mergedCatalog_10 dropBlank_empty tokenValues_def)
  show ?thesis
    apply (rule exI [of _ ?version], rule exI [of _ ?ciphers], rule exI [of _ ?extensions])
    apply (rule exI [of _ ?curves], rule exI [of _ ?pointFormats])
    apply (intro conjI impI)
             apply (rule f)
            apply (erule c3)
           apply (erule m10)
          apply (erule p3)
         apply (erule c4)
        apply (erule p4)
       apply (erule c1)
      apply (erule e1)
     apply (erule c2)
    apply (erule e2)
    done
qed

lemma ja3_fields_empty_curves_example:
  "ja3_fields ''771,4865,0,,0'' = Returns (''771'', [''4865''], [''0''], [], [''0''])"
  by (simp add: fields_eval)

theorem C2_empty_list_fields_witness:
  "length (Split ''771,4865,0,,0'' CHR '','') = 5
   \<and> Split ''771,4865,0,,0'' CHR '','' ! 3 = ''''
   \<and> ja3_fields ''771,4865,0,,0'' = Returns (''771'', [''4865''], [''0''], [], [''0''])
   \<and> (\<exists>plan. StringToSpec id None ''771,4865,0,,0'' ''Mozilla/5.0 Chrome/120.0''
                = Returns (Some plan, None))
   \<and> mergedCatalog True (receiver None) [] [''0''] ''10''
       = Some (SupportedCurvesExtension [GREASE_PLACEHOLDER])"
proof -
  let ?ua = "''Mozilla/5.0 Chrome/120.0''"
  have l: "length (Split ''771,4865,0,,0'' CHR '','') = 5" by simp
  have t: "Split ''771,4865,0,,0'' CHR '','' ! 3 = ''''" by simp
  have n: "\<not> NotUsedGREASE (receiver None)" by (simp add: receiver_def zero_TLSExtensions_def)
  have g: "True = greaseOn id None ?ua"
    using n parseUserAgent_chrome_example by (simp add: greaseOn_def)
  have v: "list_all (is_uint 8) [''0''] \<and> is_uint 16 ''771''
        \<and> list_all (\<lambda>e. mergedCatalog True (receiver None) [] [''0''] e \<noteq> None) [''0'']
        \<and> list_all (is_uint 16) [''4865'']"
    by (simp add: uint_eval mergedCatalog_0)
  from C2_empty_list_fields [OF l g] ja3_fields_empty_curves_example t v l
  show ?thesis by auto
qed

text \<open>
  C2 as stated fails: the cipher field of \<open>771,,0,29,0\<close> is empty, the parsed cipher list
  is the one-element list of the empty string, and compilation fails on that token.
\<close>

theorem C2_empty_cipher_field_counterexample:
  "length (Split ''771,,0,29,0'' CHR '','') = 5
   \<and> Split ''771,,0,29,0'' CHR '','' ! 1 = ''''
   \<and> ja3_fields ''771,,0,29,0'' = Returns (''771'', [''''], [''0''], [''29''], [''0''])
   \<and> StringToSpec id None ''771,,0,29,0'' ''Mozilla/5.0 Firefox/115.0''
       = Returns (None, Some (NumError ''ParseUint'' '''' ErrSyntax))"
proof -
  have f: "ja3_fields ''771,,0,29,0'' = Returns (''771'', [''''], [''0''], [''29''], [''0''])"
    by (simp add: fields_eval)
  have c: "buildCatalog (greaseOn id None ''Mozilla/5.0 Firefox/115.0'') (Some (receiver None))
             [''29''] [''0'']
           = Inr (mergedCatalog (greaseOn id None ''Mozilla/5.0 Firefox/115.0'') (receiver None)
                    [''29''] [''0''])"
    by (intro buildCatalog_valid) (simp_all add: uint_eval)
  have v: "ParseUint ''771'' 16 = Inr (dec_value ''771'')"
    using ParseUint_Inr [of 16 "''771''" "dec_value ''771''"] by (simp add: uint_eval)
  have s: "StringToSpec id None ''771,,0,29,0'' ''Mozilla/5.0 Firefox/115.0''
       = Returns (None, Some (NumError ''ParseUint'' '''' ErrSyntax))"
    unfolding StringToSpec_closed [OF f] c v
    by (simp add: mergedCatalog_0 ParseUint_def)
  show ?thesis using f s by simp
qed

lemmas catalog_eval = mergedCatalog_def applyOverrides_other prependGREASE_other appendP256_other
  genMap_def

text \<open>
  C3, as the code has it. The tokens of the version, the ciphers and the curves are parsed
  as unsigned decimals of 16 bits and those of the point formats as unsigned decimals of
  8 bits: a plan is returned only when all of them pass, and the first check that fails,
  in the order curves, point formats, version, extension lookup, ciphers, returns a
  \<open>*strconv.NumError\<close> that carries the offending token (it has no field for the
  fingerprint field). The extension-ID tokens are not parsed as numbers: they are looked
  up in the catalog as strings, and the first one without an entry is returned in an
  \<open>*errExtensionNotExist\<close>.
\<close>

theorem C3_numeric_validation:
  assumes "ja3_fields ja3 = Returns (version, ciphers, extensions, curves, pointFormats)"
    and "g = greaseOn u p userAgent"
    and "extMap = mergedCatalog g (receiver p) curves pointFormats"
  shows "((\<exists>plan. StringToSpec u p ja3 userAgent = Returns (Some plan, None)) \<longrightarrow>
            is_uint 16 version \<and> list_all (is_uint 16) ciphers
            \<and> list_all (is_uint 16) curves \<and> list_all (is_uint 8) pointFormats)
    \<and> (\<not> list_all (is_uint 16) curves \<longrightarrow>
          (\<exists>t k. t \<in> set curves \<and> \<not> is_uint 16 t
             \<and> StringToSpec u p ja3 userAgent = Returns (None, Some (NumError ''ParseUint'' t k))))
    \<and> (list_all (is_uint 16) curves \<and> \<not> list_all (is_uint 8) pointFormats \<longrightarrow>
          (\<exists>t k. t \<in> set pointFormats \<and> \<not> is_uint 8 t
             \<and> StringToSpec u p ja3 userAgent = Returns (None, Some (NumError ''ParseUint'' t k))))
    \<and> (list_all (is_uint 16) curves \<and> list_all (is_uint 8) pointFormats \<and> \<not> is_uint 16 version \<longrightarrow>
          (\<exists>k. StringToSpec u p ja3 userAgent
                  = Returns (None, Some (NumError ''ParseUint'' version k))))
    \<and> (list_all (is_uint 16) curves \<and> list_all (is_uint 8) pointFormats \<and> is_uint 16 version
        \<and> List.find (\<lambda>e. extMap e = None) extensions = Some x \<longrightarrow>
          StringToSpec u p ja3 userAgent = Returns (None, Some (ErrExtensionNotExist x)))
    \<and> (list_all (is_uint 16) curves \<and> list_all (is_uint 8) pointFormats \<and> is_uint 16 version
        \<and> list_all (\<lambda>e. extMap e \<noteq> None) extensions \<and> \<not> list_all (is_uint 16) ciphers \<longrightarrow>
          (\<exists>t k. t \<in> set ciphers \<and> \<not> is_uint 16 t
             \<and> StringToSpec u p ja3 userAgent = Returns (None, Some (NumError ''ParseUint'' t k))))"
proof -
  note o = StringToSpec_error_order [OF assms]
  have v: "(\<exists>plan. StringToSpec u p ja3 userAgent = Returns (Some plan, None)) \<longrightarrow>
            is_uint 16 version \<and> list_all (is_uint 16) ciphers
            \<and> list_all (is_uint 16) curves \<and> list_all (is_uint 8) pointFormats"
    unfolding StringToSpec_plan_iff [OF assms(1)] allValid_def by simp
  show ?thesis
    apply (intro conjI)
         apply (rule v)
        apply (rule impI, erule o(1))
       apply (rule impI, elim conjE, erule (1) o(2))
      apply (rule impI, elim conjE, erule (2) o(3))
     apply (rule impI, elim conjE, erule (3) o(4))
    apply (rule impI, elim conjE, erule (4) o(5))
    done
qed

lemma ja3_fields_bad_point_example:
  "ja3_fields ''771,4865,0,29,256'' = Returns (''771'', [''4865''], [''0''], [''29''], [''256''])"
  by (simp add: fields_eval)

theorem C3_numeric_validation_witness:
  "ja3_fields ''771,4865,0,29,256'' = Returns (''771'', [''4865''], [''0''], [''29''], [''256''])
   \<and> list_all (is_uint 16) [''29''] \<and> \<not> list_all (is_uint 8) [''256'']
   \<and> (\<exists>k. StringToSpec id None ''771,4865,0,29,256'' ''Mozilla/5.0 Firefox/115.0''
              = Returns (None, Some (NumError ''ParseUint'' ''256'' k)))"
proof -
  have c: "list_all (is_uint 16) [''29'']" by (simp add: uint_eval)
  have q: "\<not> list_all (is_uint 8) [''256'']" by (simp add: uint_eval)
  from C3_numeric_validation [OF ja3_fields_bad_point_example refl refl,
      of id None "''Mozilla/5.0 Firefox/115.0''"] c q
  have "\<exists>t k. t \<in> set [''256''] \<and> \<not> is_uint 8 t
          \<and> StringToSpec id None ''771,4865,0,29,256'' ''Mozilla/5.0 Firefox/115.0''
              = Returns (None, Some (NumError ''ParseUint'' t k))"
    by blast
  then show ?thesis using ja3_fields_bad_point_example c q by auto
qed

text \<open>
  C3 as stated fails on the extension IDs: a token that is not a number, and one that is
  out of the 16-bit range, are each rejected by the catalog lookup, not as a numeric
  error.
\<close>

theorem C3_extension_token_counterexample:
  "\<not> is_uint 16 ''abc''
   \<and> StringToSpec id None ''771,4865,abc,29,0'' ''Mozilla/5.0 Firefox/115.0''
       = Returns (None, Some (ErrExtensionNotExist ''abc''))
   \<and> \<not> is_uint 16 ''65536''
   \<and> StringToSpec id None ''771,4865,65536,29,0'' ''Mozilla/5.0 Firefox/115.0''
       = Returns (None, Some (ErrExtensionNotExist ''65536''))"
proof -
  have f1: "ja3_fields ''771,4865,abc,29,0''
              = Returns (''771'', [''4865''], [''abc''], [''29''], [''0''])"
    by (simp add: fields_eval)
  have f2: "ja3_fields ''771,4865,65536,29,0''
              = Returns (''771'', [''4865''], [''65536''], [''29''], [''0''])"
    by (simp add: fields_eval)
  have c: "list_all (is_uint 16) [''29'']" and q: "list_all (is_uint 8) [''0'']"
    and v: "is_uint 16 ''771''"
    by (simp_all add: uint_eval)
  have n1: "\<not> is_uint 16 ''abc''" and n2: "\<not> is_uint 16 ''65536''"
    by (simp_all add: uint_eval)
  have m1: "List.find (\<lambda>e. mergedCatalog g ext [''29''] [''0''] e = None) [''abc''] = Some ''abc''"
    for g ext by (simp add: catalog_eval)
  have m2: "List.find (\<lambda>e. mergedCatalog g ext [''29''] [''0''] e = None) [''65536''] = Some ''65536''"
    for g ext by (simp add: catalog_eval)
  show ?thesis
    using StringToSpec_error_order(4) [OF f1 refl refl c q v m1]
      StringToSpec_error_order(4) [OF f2 refl refl c q v m2] n1 n2
    by simp
qed

text \<open>
  C6, as the code has it. Whenever \<open>StringToSpec\<close> returns an error, the plan it returns
  with it is nil. When the fingerprint has its five fields, its curve, point-format and
  version tokens parse, and \<open>x\<close> is the first extension ID without an entry in the catalog
  after the override merge, the error is the \<open>*errExtensionNotExist\<close> of \<open>x\<close>, and its
  message contains \<open>x\<close>.
\<close>

theorem C6_unknown_extension:
  "(\<forall>plan err. StringToSpec u p ja3 userAgent = Returns (plan, Some err) \<longrightarrow> plan = None)
   \<and> (ja3_fields ja3 = Returns (version, ciphers, extensions, curves, pointFormats)
      \<and> list_all (is_uint 16) curves \<and> list_all (is_uint 8) pointFormats \<and> is_uint 16 version
      \<and> extensions = known @ x # rest
      \<and> list_all (\<lambda>e. mergedCatalog (greaseOn u p userAgent) (receiver p) curves pointFormats e
                        \<noteq> None) known
      \<and> mergedCatalog (greaseOn u p userAgent) (receiver p) curves pointFormats x = None
      \<longrightarrow> StringToSpec u p ja3 userAgent = Returns (None, Some (ErrExtensionNotExist x))
          \<and> Contains (Error_errExtensionNotExist x) x)"
proof (intro conjI allI impI)
  fix plan err
  assume "StringToSpec u p ja3 userAgent = Returns (plan, Some err)"
  then show "plan = None" using StringToSpec_total [of u p ja3 userAgent] by auto
next
  let ?m = "mergedCatalog (greaseOn u p userAgent) (receiver p) curves pointFormats"
  assume a: "ja3_fields ja3 = Returns (version, ciphers, extensions, curves, pointFormats)
      \<and> list_all (is_uint 16) curves \<and> list_all (is_uint 8) pointFormats \<and> is_uint 16 version
      \<and> extensions = known @ x # rest
      \<and> list_all (\<lambda>e. ?m e \<noteq> None) known \<and> ?m x = None"
  then have f: "ja3_fields ja3 = Returns (version, ciphers, extensions, curves, pointFormats)"
    and c: "list_all (is_uint 16) curves" and q: "list_all (is_uint 8) pointFormats"
    and v: "is_uint 16 version" and e: "extensions = known @ x # rest"
    and k: "list_all (\<lambda>e. \<not> ?m e = None) known" and x: "?m x = None"
    by simp_all
  have "List.find (\<lambda>e. ?m e = None) extensions = Some x"
    unfolding e using k x by (rule find_first)
  from StringToSpec_error_order(4) [OF f refl refl c q v this]
  show "StringToSpec u p ja3 userAgent = Returns (None, Some (ErrExtensionNotExist x))" .
  show "Contains (Error_errExtensionNotExist x) x" by (rule Error_names_context)
qed

lemma ja3_fields_unknown_example:
  "ja3_fields ''771,4865,0-99999,29,0''
     = Returns (''771'', [''4865''], [''0'', ''99999''], [''29''], [''0''])"
  by (simp add: fields_eval)

theorem C6_unknown_extension_witness:
  "ja3_fields ''771,4865,0-99999,29,0''
     = Returns (''771'', [''4865''], [''0'', ''99999''], [''29''], [''0''])
   \<and> StringToSpec id None ''771,4865,0-99999,29,0'' ''Mozilla/5.0 Chrome/120.0''
       = Returns (None, Some (ErrExtensionNotExist ''99999''))
   \<and> Contains (Error_errExtensionNotExist ''99999'') ''99999''"
proof -
  let ?ua = "''Mozilla/5.0 Chrome/120.0''"
  have c: "list_all (is_uint 16) [''29'']" and q: "list_all (is_uint 8) [''0'']"
    and v: "is_uint 16 ''771''"
    by (simp_all add: uint_eval)
  have e: "[''0'', ''99999''] = [''0''] @ ''99999'' # []" by simp
  have k: "list_all (\<lambda>e. mergedCatalog (greaseOn id None ?ua) (receiver None) [''29''] [''0''] e
                          \<noteq> None) [''0'']"
    by (simp add: mergedCatalog_0)
  have x: "mergedCatalog (greaseOn id None ?ua) (receiver None) [''29''] [''0''] ''99999'' = None"
    by (simp add: catalog_eval)
  from C6_unknown_extension [of id None "''771,4865,0-99999,29,0''" ?ua "''771''" "[''4865'']"
      "[''0'', ''99999'']" "[''29'']" "[''0'']" "[''0'']" "''99999''" "[]"]
    ja3_fields_unknown_example c q v e k x
  show ?thesis by blast
qed

text \<open>
  C6 as stated fails: the extension-ID list of \<open>x,4865,99999,29,0\<close> contains \<open>99999\<close>, which
  has no entry in the merged catalog, and the error returned is the numeric error of the
  version token, which is parsed before the extension IDs are looked up.
\<close>

theorem C6_earlier_error_counterexample:
  "ja3_fields ''x,4865,99999,29,0'' = Returns (''x'', [''4865''], [''99999''], [''29''], [''0''])
   \<and> mergedCatalog (greaseOn id None ''Mozilla/5.0 Firefox/115.0'') (receiver None) [''29''] [''0'']
        ''99999'' = None
   \<and> StringToSpec id None ''x,4865,99999,29,0'' ''Mozilla/5.0 Firefox/115.0''
       = Returns (None, Some (NumError ''ParseUint'' ''x'' ErrSyntax))"
proof -
  have f: "ja3_fields ''x,4865,99999,29,0''
             = Returns (''x'', [''4865''], [''99999''], [''29''], [''0''])"
    by (simp add: fields_eval)
  have c: "list_all (is_uint 16) [''29'']" and q: "list_all (is_uint 8) [''0'']"
    and v: "\<not> is_uint 16 ''x''"
    by (simp_all add: uint_eval)
  have x: "mergedCatalog g ext [''29''] [''0''] ''99999'' = None" for g ext
    by (simp add: catalog_eval)
  from StringToSpec_error_order(3) [OF f refl refl c q v, of id None "''Mozilla/5.0 Firefox/115.0''"]
  obtain k where s: "StringToSpec id None ''x,4865,99999,29,0'' ''Mozilla/5.0 Firefox/115.0''
                       = Returns (None, Some (NumError ''ParseUint'' ''x'' k))" by blast
  have k: "k = ErrSyntax"
  proof -
    have cat: "buildCatalog (greaseOn id None ''Mozilla/5.0 Firefox/115.0'') (Some (receiver None))
                 [''29''] [''0'']
               = Inr (mergedCatalog (greaseOn id None ''Mozilla/5.0 Firefox/115.0'')
                        (receiver None) [''29''] [''0''])"
      using c q by (rule buildCatalog_valid)
    have "StringToSpec id None ''x,4865,99999,29,0'' ''Mozilla/5.0 Firefox/115.0''
            = Returns (None, Some (NumError ''ParseUint'' ''x'' ErrSyntax))"
      unfolding StringToSpec_closed [OF f] cat by (simp add: ParseUint_def)
    with s show ?thesis by simp
  qed
  show ?thesis using f x s k by simp
qed


end
